theory Spec2Isabelle
  imports Main "HOL-Library.Word" "HOL-Library.Sublist"
begin

section \<open>Package bufferz: the broadcast log (MultiReader)\<close>

text \<open>
  The struct \<open>MultiReader\<close> holds the byte slice \<open>data\<close>, the channel \<open>closeChan\<close>
  (only ever closed, never sent on, so its state is one bit: closed or not) and the
  atomic flag \<open>closed\<close> (a \<open>uint32\<close>, "closeCalled if non-zero"). The mutex and the
  condition variable carry no data: the mutex delimits the atomic sections below, and a
  \<open>cond.Wait()\<close> is a call that has not returned yet.
\<close>

type_synonym byte = "8 word"

record MultiReader =
  data :: "byte list"
  closeChan :: bool
  closed :: "32 word"

datatype error =
    ErrCloseCalled   \<comment> \<open>\<open>errors.New("multireader: close called")\<close>\<close>
  | EOF              \<comment> \<open>\<open>io.EOF\<close>\<close>
  | CtxErr           \<comment> \<open>\<open>ctx.Err()\<close> of a context that is done\<close>

definition NewMultiReaderBuffer :: MultiReader where
  "NewMultiReaderBuffer = \<lparr>data = [], closeChan = False, closed = 0\<rparr>"

definition closeCalled :: "MultiReader \<Rightarrow> bool" where
  "closeCalled m = (closed m > 0)"

text \<open>
  \<open>Write\<close> reads the flag outside the mutex and appends inside it; these are its two
  atomic sections. The call as a whole returns \<open>(n, err)\<close> and the log.
\<close>

definition write_append :: "MultiReader \<Rightarrow> byte list \<Rightarrow> MultiReader" where
  "write_append m p = m\<lparr>data := data m @ p\<rparr>"

definition Write :: "MultiReader \<Rightarrow> byte list \<Rightarrow> (nat \<times> error option) \<times> MultiReader" where
  "Write m p =
     (if closeCalled m then ((0, Some ErrCloseCalled), m)
      else ((length p, None), write_append m p))"

text \<open>
  \<open>Close\<close> stores the flag atomically, then closes the channel under the mutex; it
  returns \<open>nil\<close> on every path.
\<close>

definition close_store :: "MultiReader \<Rightarrow> MultiReader" where
  "close_store m = m\<lparr>closed := 1\<rparr>"

definition close_chan :: "MultiReader \<Rightarrow> MultiReader" where
  "close_chan m = m\<lparr>closeChan := True\<rparr>"

definition Close :: "MultiReader \<Rightarrow> error option \<times> MultiReader" where
  "Close m =
     (if closeCalled m then (None, m)
      else (None, close_chan (close_store m)))"

text \<open>
  A reader is the closure returned by \<open>GetReader\<close>: its private cursor \<open>pos\<close> and the
  context it was created with, of which only \<open>ctx.Done()\<close> is read. The field
  \<open>observed\<close> is a history variable, not in the source: the bytes that the \<open>Read\<close>
  calls of this reader have delivered so far, in order.
\<close>

record reader =
  pos :: nat
  ctx_done :: bool
  observed :: "byte list"

definition GetReader :: "bool \<Rightarrow> reader" where
  "GetReader done = \<lparr>pos = 0, ctx_done = done, observed = []\<rparr>"

text \<open>
  \<open>Read\<close> with a buffer of length \<open>k\<close>. The whole body runs under the mutex, so
  \<open>data\<close> and \<open>closeChan\<close> are stable while it runs; a pass of the loop that ends in
  \<open>cond.Wait()\<close> changes nothing, so the call is determined by the pass that leaves the
  loop. \<open>None\<close> is a call that waits. When both \<open>ctx.Done()\<close> and \<open>closeChan\<close> are ready,
  Go's \<open>select\<close> takes either case: \<open>pick\<close> says whether it takes the first.
  \<open>copy(p, m.data[pos:])\<close> copies \<open>min (len p) (len data - pos)\<close> bytes.
\<close>

definition Read ::
  "MultiReader \<Rightarrow> reader \<Rightarrow> nat \<Rightarrow> bool \<Rightarrow> ((byte list \<times> error option) \<times> reader) option" where
  "Read m r k pick =
     (if ctx_done r \<and> (\<not> closeChan m \<or> pick) then Some (([], Some CtxErr), r)
      else if closeChan m \<or> pos r < length (data m) then
        (let p = (if pos r < length (data m) then take k (drop (pos r) (data m)) else []);
             pos' = pos r + length p;
             r' = r\<lparr>pos := pos', observed := observed r @ p\<rparr>
         in if closeCalled m \<and> pos' = length (data m) then Some ((p, Some EOF), r')
            else Some ((p, None), r'))
      else None)"

text \<open>
  Reading to the end, as \<open>io.Copy\<close> does in \<open>Job.Stream\<close> and \<open>io.ReadAll\<close> in the
  tests: call \<open>Read\<close> with a buffer of length \<open>k\<close>, keep the bytes, stop at the first
  error. No other call runs in between, so the log \<open>m\<close> is the same at every pass. The
  loop need not end (an empty buffer never advances, an open log makes \<open>Read\<close> wait):
  \<open>None\<close> is "does not return". The result is the bytes read and the error that ended
  the loop.
\<close>

partial_function (option) read_all ::
  "MultiReader \<Rightarrow> reader \<Rightarrow> nat \<Rightarrow> bool \<Rightarrow> byte list \<Rightarrow> (byte list \<times> error) option" where
  "read_all m r k pick acc =
     (case Read m r k pick of
        None \<Rightarrow> None
      | Some res \<Rightarrow>
          (case snd (fst res) of
             Some e \<Rightarrow> Some (acc @ fst (fst res), e)
           | None \<Rightarrow> read_all m (snd res) k pick (acc @ fst (fst res))))"

subsection \<open>Interleavings\<close>

text \<open>
  Calls from different goroutines interleave at the atomic sections of the source.
  \<open>Write\<close> has two (the flag test, the locked append), \<open>Close\<close> has two (the flag test
  with the store, the locked channel close), \<open>Read\<close> is one (see above), and a context
  is cancelled from outside at any time. The source allows a single writer, so a
  \<open>Write\<close> begins only when none is in flight. The goroutine that \<open>GetReader\<close> starts
  only broadcasts on the condition variable; it changes no data.
\<close>

datatype event =
    WriteBegin "byte list"  \<comment> \<open>\<open>Write(p)\<close> is called and tests \<open>closeCalled()\<close>\<close>
  | WriteAppend             \<comment> \<open>its locked \<open>append\<close>\<close>
  | CloseBegin              \<comment> \<open>\<open>Close()\<close> is called, tests the flag and stores 1\<close>
  | CloseChan               \<comment> \<open>its locked \<open>close(m.closeChan)\<close>\<close>
  | NewReader bool          \<comment> \<open>\<open>GetReader(ctx)\<close>; the flag is \<open>ctx\<close> being done already\<close>
  | Cancel nat              \<comment> \<open>the context of reader \<open>i\<close> is cancelled\<close>
  | ReadCall nat nat bool   \<comment> \<open>reader \<open>i\<close> calls \<open>Read\<close> with a buffer of length \<open>k\<close>\<close>

record config =
  log :: MultiReader
  readers :: "reader list"
  writing :: "byte list option"  \<comment> \<open>the argument of the \<open>Write\<close> in flight\<close>
  closing :: bool                \<comment> \<open>a \<open>Close\<close> is between its two sections\<close>

definition init :: config where
  "init = \<lparr>log = NewMultiReaderBuffer, readers = [], writing = None, closing = False\<rparr>"

fun step :: "config \<Rightarrow> event \<Rightarrow> config" where
  "step c (WriteBegin p) =
     (if writing c = None \<and> \<not> closeCalled (log c) then c\<lparr>writing := Some p\<rparr> else c)"
| "step c WriteAppend =
     (case writing c of
        None \<Rightarrow> c
      | Some p \<Rightarrow> c\<lparr>log := write_append (log c) p, writing := None\<rparr>)"
| "step c CloseBegin =
     (if closeCalled (log c) then c else c\<lparr>log := close_store (log c), closing := True\<rparr>)"
| "step c CloseChan =
     (if closing c then c\<lparr>log := close_chan (log c), closing := False\<rparr> else c)"
| "step c (NewReader d) = c\<lparr>readers := readers c @ [GetReader d]\<rparr>"
| "step c (Cancel i) =
     (if i < length (readers c)
      then c\<lparr>readers := (readers c)[i := (readers c ! i)\<lparr>ctx_done := True\<rparr>]\<rparr>
      else c)"
| "step c (ReadCall i k pick) =
     (if i < length (readers c) then
        (case Read (log c) (readers c ! i) k pick of
           None \<Rightarrow> c
         | Some res \<Rightarrow> c\<lparr>readers := (readers c)[i := snd res]\<rparr>)
      else c)"

definition run :: "event list \<Rightarrow> config" where
  "run evs = foldl step init evs"

text \<open>Every reader has seen exactly the first \<open>pos\<close> bytes of the log.\<close>

definition reader_ok :: "MultiReader \<Rightarrow> reader \<Rightarrow> bool" where
  "reader_ok m r = (pos r \<le> length (data m) \<and> observed r = take (pos r) (data m))"

definition readers_ok :: "config \<Rightarrow> bool" where
  "readers_ok c = (\<forall>r \<in> set (readers c). reader_ok (log c) r)"

section \<open>Package cgroupz: the v2 control-group manager\<close>

text \<open>
  The limits are Go \<open>int\<close>s that are only compared with 0 and printed, so they are
  modelled as \<open>int\<close>. \<open>MaxIO\<close> is a pointer, \<open>nil\<close> when no I/O limit is asked for.
  The fields of \<open>IOLimit\<close> carry the prefix \<open>io_\<close>: \<open>MaxIO\<close> is also a field of
  \<open>ResourceLimit\<close>, and \<open>Min\<close> is a constant of HOL.
\<close>

record IOLimit =
  io_MaxIO :: int
  io_Maj :: int
  io_Min :: int

record ResourceLimit =
  CpuWeight :: int
  MaxMem :: int
  MaxIO :: "IOLimit option"

record CgroupController =
  Path :: string

text \<open>
  \<open>strconv.Itoa\<close>, and \<open>%d\<close> of \<open>fmt.Sprintf\<close>: the decimal digits, most significant
  first, after a minus sign for a negative number.
\<close>

fun digits :: "nat \<Rightarrow> string" where
  "digits n =
     (if n < 10 then [''0123456789'' ! n]
      else digits (n div 10) @ [''0123456789'' ! (n mod 10)])"

declare digits.simps [simp del]

definition Itoa :: "int \<Rightarrow> string" where
  "Itoa i = (if i < 0 then CHR ''-'' # digits (nat (- i)) else digits (nat i))"

text \<open>The number that a string of decimal digits denotes, with an optional sign.\<close>

definition digit_val :: "char \<Rightarrow> nat" where
  "digit_val c = of_char c - 48"

definition decimal :: "string \<Rightarrow> nat" where
  "decimal cs = foldl (\<lambda>a c. 10 * a + digit_val c) 0 cs"

definition Atoi :: "string \<Rightarrow> int" where
  "Atoi cs = (case cs of
                [] \<Rightarrow> 0
              | c # cs' \<Rightarrow> if c = CHR ''-'' then - int (decimal cs') else int (decimal cs))"

text \<open>
  The file system is the environment. The functions of \<open>os\<close> that the package calls are
  recorded as operations; whether the \<open>n\<close>-th operation attempted succeeds is decided by
  the environment (\<open>succeeds\<close>), and so is \<open>filepath.Join\<close> of two elements (\<open>Join\<close>).
  The log lists every operation attempted, in order, with its outcome.
  \<open>os.WriteFile\<close> replaces the content of the file by the bytes given. The permission
  bits (0644, 0755) are constants of the source and are left out.
\<close>

datatype fs_op =
    WriteFile string string   \<comment> \<open>\<open>os.WriteFile(path, bytes, 0644)\<close>\<close>
  | MkdirAll string           \<comment> \<open>\<open>os.MkdirAll(path, 0755)\<close>\<close>
  | RemoveAll string          \<comment> \<open>\<open>os.RemoveAll(path)\<close>\<close>

type_synonym fs_log = "(fs_op \<times> bool) list"

record fs_env =
  Join :: "string \<Rightarrow> string \<Rightarrow> string"
  succeeds :: "nat \<Rightarrow> fs_op \<Rightarrow> bool"

datatype cgroup_error =
    ErrSubtreeControl   \<comment> \<open>"cgroup.subtree_control write file: ..."\<close>
  | ErrMkdirAll         \<comment> \<open>"os.MkdirAll: ..."\<close>
  | ErrWriteCpu         \<comment> \<open>"write cpu weight: ..."\<close>
  | ErrWriteMem         \<comment> \<open>"write memory max: ..."\<close>
  | ErrWriteIO          \<comment> \<open>"write io limit: ..."\<close>
  | ErrRemoveAll        \<comment> \<open>"os.RemoveAll: ..."\<close>

definition do_op :: "fs_env \<Rightarrow> fs_op \<Rightarrow> fs_log \<Rightarrow> bool \<times> fs_log" where
  "do_op env op l = (succeeds env (length l) op, l @ [(op, succeeds env (length l) op)])"

text \<open>
  \<open>cleanUp\<close>: up to four \<open>os.RemoveAll\<close>, returning at the first that succeeds. The
  sleeps between the attempts (10 ms, doubling) are not modelled.
\<close>

fun cleanUp_loop :: "fs_env \<Rightarrow> string \<Rightarrow> nat \<Rightarrow> fs_log \<Rightarrow> cgroup_error option \<times> fs_log" where
  "cleanUp_loop env path 0 l = (Some ErrRemoveAll, l)"
| "cleanUp_loop env path (Suc n) l =
     (case do_op env (RemoveAll path) l of
        (True, l') \<Rightarrow> (None, l')
      | (False, l') \<Rightarrow> cleanUp_loop env path n l')"

definition cleanUp :: "fs_env \<Rightarrow> string \<Rightarrow> fs_log \<Rightarrow> cgroup_error option \<times> fs_log" where
  "cleanUp env path l = cleanUp_loop env path 4 l"

definition CgroupController_Close ::
  "fs_env \<Rightarrow> CgroupController \<Rightarrow> fs_log \<Rightarrow> cgroup_error option \<times> fs_log" where
  "CgroupController_Close env c l = cleanUp env (Path c) l"

text \<open>
  \<open>New\<close>. The deferred function runs \<open>cleanUp path\<close> on every error return after the
  directory was made; its own error is only printed.
\<close>

definition io_line :: "IOLimit \<Rightarrow> string" where
  "io_line io = Itoa (io_Maj io) @ '':'' @ Itoa (io_Min io) @ '' '' @ ''wiops'' @ ''=''
                @ Itoa (io_MaxIO io)"

definition New ::
  "fs_env \<Rightarrow> string \<Rightarrow> string \<Rightarrow> ResourceLimit \<Rightarrow> fs_log
     \<Rightarrow> (cgroup_error + CgroupController) \<times> fs_log" where
  "New env name mountPoint limits l0 =
     (case do_op env (WriteFile (Join env mountPoint ''cgroup.subtree_control'')
                        ''+cpu +memory +io'') l0 of
        (False, l1) \<Rightarrow> (Inl ErrSubtreeControl, l1)
      | (True, l1) \<Rightarrow>
     (let path = Join env mountPoint name in
      case do_op env (MkdirAll path) l1 of
        (False, l2) \<Rightarrow> (Inl ErrMkdirAll, l2)
      | (True, l2) \<Rightarrow>
     (case (if CpuWeight limits \<noteq> 0
            then do_op env (WriteFile (Join env path ''cpu.weight'')
                              (Itoa (CpuWeight limits))) l2
            else (True, l2)) of
        (False, l3) \<Rightarrow> (Inl ErrWriteCpu, snd (cleanUp env path l3))
      | (True, l3) \<Rightarrow>
     (case (if MaxMem limits \<noteq> 0
            then do_op env (WriteFile (Join env path ''memory.max'')
                              (Itoa (MaxMem limits))) l3
            else (True, l3)) of
        (False, l4) \<Rightarrow> (Inl ErrWriteMem, snd (cleanUp env path l4))
      | (True, l4) \<Rightarrow>
     (case (case MaxIO limits of
              None \<Rightarrow> (True, l4)
            | Some io \<Rightarrow> do_op env (WriteFile (Join env path ''io.max'') (io_line io)) l4) of
        (False, l5) \<Rightarrow> (Inl ErrWriteIO, snd (cleanUp env path l5))
      | (True, l5) \<Rightarrow> (Inr \<lparr>Path = path\<rparr>, l5))))))"

section \<open>Package jobs: the job supervisor\<close>

text \<open>
  \<open>Status\<close> is a Go string type with four named constants; functions of the service
  also return the empty string in its place.
\<close>

type_synonym Status = string

definition StatusUnknown :: Status where "StatusUnknown = ''unknown''"
definition StatusRunning :: Status where "StatusRunning = ''running''"
definition StatusStopped :: Status where "StatusStopped = ''stopped''"
definition StatusExited :: Status where "StatusExited = ''exited''"

definition cgroupMount :: string where "cgroupMount = ''/lib_cgroup''"

text \<open>
  What the package reads of \<open>exec.Cmd\<close>: its argument vector, \<open>Process\<close> (set by a
  \<open>cmd.Start()\<close> that spawned the child, here its pid) and \<open>ProcessState\<close> (set by
  \<open>cmd.Wait()\<close> when the child was reaped). Of the process state only the wait status
  is read: \<open>Signaled()\<close>, \<open>Exited()\<close> and \<open>ExitCode()\<close>, which is \<open>-1\<close> unless the
  child exited.
\<close>

datatype WaitStatus = Exited int | Signaled int | OtherStatus

definition ExitCode :: "WaitStatus \<Rightarrow> int" where
  "ExitCode ps = (case ps of Exited c \<Rightarrow> c | Signaled sig \<Rightarrow> - 1 | OtherStatus \<Rightarrow> - 1)"

record Cmd =
  Args :: "string list"
  Process :: "int option"
  ProcessState :: "WaitStatus option"

text \<open>
  Objects reached through pointers live in a store, so that a copy of a struct shares
  them and nothing else: the \<open>exec.Cmd\<close> values, the \<open>MultiReader\<close> values (a pointer
  is an index), the file-system log of package cgroupz, and the contexts (a context is
  a number; \<open>cancelled\<close> holds those that are done). The stores only grow, so an index,
  once handed out, stays valid.
\<close>

record World =
  cmds :: "Cmd list"
  mreaders :: "MultiReader list"
  fs :: fs_log
  ctx_count :: nat
  cancelled :: "nat set"

definition init_World :: World where
  "init_World = \<lparr>cmds = [], mreaders = [], fs = [], ctx_count = 0, cancelled = {}\<rparr>"

text \<open>
  \<open>context.WithCancel(parent)\<close> makes a new context, done from the start when the
  parent is; the function \<open>cancel\<close> it returns marks it done. Context 0 is
  \<open>context.Background()\<close>. That a context also becomes done when its parent is
  cancelled later is left to the environment: no function here reads \<open>Done()\<close> of a
  derived context except right after cancelling it.
\<close>

definition WithCancel :: "nat \<Rightarrow> World \<Rightarrow> nat \<times> World" where
  "WithCancel parent w =
     (let c = Suc (ctx_count w)
      in (c, w\<lparr>ctx_count := c,
              cancelled := (if parent \<in> cancelled w then insert c (cancelled w)
                            else cancelled w)\<rparr>))"

definition cancel :: "nat \<Rightarrow> World \<Rightarrow> World" where
  "cancel c w = w\<lparr>cancelled := insert c (cancelled w)\<rparr>"

text \<open>
  The entries of \<open>Job.cleanup\<close> are the multireader and, once made, the cgroup
  controller. \<open>getReaderFn\<close> and \<open>writeCloser\<close> both are the multireader made by
  \<open>New\<close>: the field \<open>multireader\<close> is its address. \<open>goroutines\<close> is the length of the
  slice of pump functions (\<open>stdoutFn\<close>, \<open>stderrFn\<close>); what the pumps carry is the
  environment's. The field \<open>id\<close> of the source is \<open>job_id\<close> here (\<open>id\<close> is a constant of
  HOL).
\<close>

datatype closer = CloseMultiReader nat | CloseCgroup CgroupController

record Job =
  Err :: string
  Status :: Status
  cmd :: "nat option"
  command :: "string list"
  ctx :: nat
  job_id :: string
  limits :: ResourceLimit
  multireader :: nat
  cleanup :: "closer list"
  goroutines :: nat

datatype job_error =
    ErrAlreadyExecuted             \<comment> \<open>"process already executed"\<close>
  | ErrCgroupNew cgroup_error      \<comment> \<open>"cgroupz.New: ..."\<close>
  | ErrStdoutPipe                  \<comment> \<open>"j.cmd.StdoutPipe: ..."\<close>
  | ErrStderrPipe                  \<comment> \<open>"j.cmd.StderrPipe: ..."\<close>
  | ErrCmdStart                    \<comment> \<open>"j.cmd.Start: ..."\<close>
  | ErrCmdWait                     \<comment> \<open>"j.cmd.Wait: ..."\<close>
  | ErrPump                        \<comment> \<open>what a pump goroutine sent on \<open>errch\<close>\<close>
  | ErrGoroutine "job_error list"  \<comment> \<open>"error from goroutine: ..."\<close>

text \<open>
  \<open>jobs.New\<close> (named \<open>Job_New\<close>: \<open>New\<close> is the function of cgroupz above). The string of
  \<open>uuid.New()\<close> is the environment's.
\<close>

definition Job_New :: "string \<Rightarrow> nat \<Rightarrow> string list \<Rightarrow> ResourceLimit \<Rightarrow> World \<Rightarrow> Job \<times> World" where
  "Job_New uuid c cmdline lim w =
     (let mr = length (mreaders w)
      in (\<lparr>Err = [], Status = StatusUnknown, cmd = None, command = cmdline, ctx = c,
           job_id = uuid, limits = lim, multireader = mr,
           cleanup = [CloseMultiReader mr], goroutines = 0\<rparr>,
          w\<lparr>mreaders := mreaders w @ [NewMultiReaderBuffer]\<rparr>))"

text \<open>
  What the operating system decides during \<open>Job.start\<close> and \<open>Job.close\<close>: the file
  system, whether the two pipes can be made, and whether \<open>cmd.Start()\<close> spawns the
  child (then with which pid).
\<close>

record start_env =
  fsenv :: fs_env
  stdout_pipe_ok :: bool
  stderr_pipe_ok :: bool
  spawn :: "int option"

definition close_one :: "fs_env \<Rightarrow> closer \<Rightarrow> World \<Rightarrow> World" where
  "close_one env cl w =
     (case cl of
        CloseMultiReader a \<Rightarrow> w\<lparr>mreaders := (mreaders w)[a := snd (Close (mreaders w ! a))]\<rparr>
      | CloseCgroup cg \<Rightarrow> w\<lparr>fs := snd (CgroupController_Close env cg (fs w))\<rparr>)"

definition Job_close :: "fs_env \<Rightarrow> Job \<Rightarrow> World \<Rightarrow> World" where
  "Job_close env j w = foldl (\<lambda>w' cl. close_one env cl w') w (cleanup j)"

definition Job_start :: "start_env \<Rightarrow> Job \<Rightarrow> World \<Rightarrow> job_error option \<times> Job \<times> World" where
  "Job_start env j w =
     (case New (fsenv env) (job_id j) cgroupMount (limits j) (fs w) of
        (Inl e, l) \<Rightarrow> (Some (ErrCgroupNew e), j, w\<lparr>fs := l\<rparr>)
      | (Inr cgroup, l) \<Rightarrow>
          (let a = length (cmds w);
               c = \<lparr>Args = ''/home/vagrant/bin/utility/cmd'' # Path cgroup # command j,
                    Process = None, ProcessState = None\<rparr>;
               w1 = w\<lparr>cmds := cmds w @ [c], fs := l\<rparr>;
               j1 = j\<lparr>cleanup := cleanup j @ [CloseCgroup cgroup], cmd := Some a,
                      Status := StatusRunning\<rparr>
           in if \<not> stdout_pipe_ok env then (Some ErrStdoutPipe, j1, w1)
              else if \<not> stderr_pipe_ok env then (Some ErrStderrPipe, j1, w1)
              else (case spawn env of
                      None \<Rightarrow> (Some ErrCmdStart, j1, w1)
                    | Some pid \<Rightarrow>
                        (None, j1\<lparr>goroutines := 2\<rparr>,
                         w1\<lparr>cmds := (cmds w1)[a := c\<lparr>Process := Some pid\<rparr>]\<rparr>))))"

definition already_executed :: "Job \<Rightarrow> World \<Rightarrow> bool" where
  "already_executed j w =
     (case cmd j of None \<Rightarrow> False | Some a \<Rightarrow> Process (cmds w ! a) \<noteq> None)"

definition Job_Start :: "start_env \<Rightarrow> Job \<Rightarrow> World \<Rightarrow> job_error option \<times> Job \<times> World" where
  "Job_Start env j w =
     (if already_executed j w then (Some ErrAlreadyExecuted, j, w)
      else (case Job_start env j w of
              (Some e, j', w') \<Rightarrow> (Some e, j', Job_close (fsenv env) j' w')
            | (None, j', w') \<Rightarrow> (None, j', w')))"

text \<open>
  \<open>Job.Wait\<close>. The environment gives what each pump goroutine sent on \<open>errch\<close> and how
  \<open>cmd.Wait()\<close> ended: without error, with an \<open>*exec.ExitError\<close> (both leave a process
  state), or with another error (a process state or none). On a command that never
  spawned a child \<open>cmd.Wait()\<close> returns the error "exec: not started". \<open>None\<close> is the
  nil-pointer panic of \<open>j.cmd.Wait()\<close> on a job that was never started. The deferred
  \<open>j.close()\<close> runs on every return.
\<close>

datatype cmd_wait = WaitNil WaitStatus | WaitExitError WaitStatus | WaitOther "WaitStatus option"

record wait_env =
  wfsenv :: fs_env
  pumps :: "job_error option list"
  waited :: cmd_wait

definition status_of :: "WaitStatus \<Rightarrow> Status" where
  "status_of ws = (case ws of Signaled sig \<Rightarrow> StatusStopped
                            | Exited c \<Rightarrow> StatusExited
                            | OtherStatus \<Rightarrow> StatusUnknown)"

definition Job_Wait :: "wait_env \<Rightarrow> Job \<Rightarrow> World \<Rightarrow> (job_error option \<times> Job \<times> World) option" where
  "Job_Wait env j w =
     (case cmd j of
        None \<Rightarrow> None
      | Some a \<Rightarrow>
          (let errs = List.map_filter (\<lambda>e. e) (take (goroutines j) (pumps env));
               res = (if Process (cmds w ! a) = None then WaitOther None else waited env);
               finish = (\<lambda>ws. let w1 = w\<lparr>cmds := (cmds w)[a := (cmds w ! a)\<lparr>ProcessState := Some ws\<rparr>]\<rparr>;
                                 j1 = j\<lparr>Status := status_of ws\<rparr>
                             in Some (if errs \<noteq> [] then Some (ErrGoroutine errs) else None,
                                      j1, Job_close (wfsenv env) j1 w1))
           in case res of
                WaitOther pso \<Rightarrow>
                  (let w1 = w\<lparr>cmds := (cmds w)[a := (cmds w ! a)\<lparr>ProcessState := pso\<rparr>]\<rparr>;
                       j1 = j\<lparr>Status := StatusUnknown\<rparr>
                   in Some (Some ErrCmdWait, j1, Job_close (wfsenv env) j1 w1))
              | WaitNil ws \<Rightarrow> finish ws
              | WaitExitError ws \<Rightarrow> finish ws))"

definition Result :: "Job \<Rightarrow> World \<Rightarrow> int \<times> Status" where
  "Result j w =
     (case cmd j of
        None \<Rightarrow> (- 1, StatusUnknown)
      | Some a \<Rightarrow>
          (case ProcessState (cmds w ! a) of
             None \<Rightarrow> (- 1, StatusUnknown)
           | Some ps \<Rightarrow> (ExitCode ps, Status j)))"

text \<open>\<open>Start\<close> called repeatedly on one job, with the error each call returned.\<close>

fun Job_Starts ::
  "start_env list \<Rightarrow> Job \<Rightarrow> World \<Rightarrow> job_error option list \<times> Job \<times> World" where
  "Job_Starts [] j w = ([], j, w)"
| "Job_Starts (env # envs) j w =
     (case Job_Start env j w of
        (r, j', w') \<Rightarrow>
          (case Job_Starts envs j' w' of (rs, j'', w'') \<Rightarrow> (r # rs, j'', w'')))"

section \<open>Package lib/jobs: the job registry\<close>

text \<open>
  \<open>JobRecord\<close> holds a \<open>jobs.Job\<close> by value, so a record is a copy of the job taken when
  the record was built. Its fields \<open>cancel\<close> and \<open>ctx\<close> are the derived context
  \<open>jobCtx\<close> and the function that cancels it: the field \<open>job_ctx\<close>.
\<close>

record JobRecord =
  ID :: "32 word"
  Job :: Job
  job_ctx :: nat

text \<open>
  \<open>Service\<close>. The counter of the embedded \<open>ider\<close> is an \<open>int32\<close>; the embedded mutex
  is held or not (\<open>locked\<close>); \<open>waiting\<close> are the goroutines started by \<open>StartJob\<close> that
  are inside \<open>job.Wait()\<close>, each with the variables \<open>id\<close> and \<open>job\<close> it captured, and
  \<open>waited_jobs\<close> those whose \<open>Wait\<close> has returned, with the error it returned.
\<close>

record Service =
  ider :: "32 word"
  store :: "32 word \<rightharpoonup> JobRecord"
  locked :: bool
  waiting :: "(32 word \<times> Job) list"
  waited_jobs :: "(32 word \<times> Job \<times> job_error option) list"
  parentCtx :: nat

datatype service_error =
    ErrExists "32 word"      \<comment> \<open>"id %d already exists"\<close>
  | ErrJobNotFound           \<comment> \<open>"job not found"\<close>
  | ErrJob job_error         \<comment> \<open>the error of \<open>job.Start()\<close>\<close>
  | ErrCtx                   \<comment> \<open>\<open>ctx.Err()\<close> of the caller's context\<close>
  | ErrGetJob service_error  \<comment> \<open>"getJob: ..."\<close>
  | ErrStream error          \<comment> \<open>"job.Stream: io.Copy: ..."\<close>

text \<open>A call either returns or waits for ever (for the mutex, or for the log).\<close>

datatype 'a outcome = Blocks | Returns 'a

definition NewService :: "nat \<Rightarrow> World \<Rightarrow> Service \<times> World" where
  "NewService c w =
     (case WithCancel c w of
        (p, w') \<Rightarrow> (\<lparr>ider = 0, store = Map.empty, locked = False, waiting = [],
                     waited_jobs = [], parentCtx = p\<rparr>, w'))"

text \<open>\<open>atomic.AddInt32(&i.id, 1)\<close> adds with wrap-around and returns the new value.\<close>

definition nextID :: "Service \<Rightarrow> 32 word \<times> Service" where
  "nextID s = (ider s + 1, s\<lparr>ider := ider s + 1\<rparr>)"

text \<open>
  \<open>StartJob\<close>. The record is built from the variable \<open>job\<close> before \<open>job.Start()\<close> runs
  on that variable, and the goroutine calls \<open>job.Wait()\<close> on the variable as well: the
  record in the map keeps the copy. When the id is in the map already the function
  returns without unlocking the mutex. Nothing ever deletes from the map.
\<close>

definition StartJob ::
  "start_env \<Rightarrow> string \<Rightarrow> nat \<Rightarrow> string list \<Rightarrow> ResourceLimit \<Rightarrow> Service \<Rightarrow> World
     \<Rightarrow> (service_error + JobRecord) outcome \<times> Service \<times> World" where
  "StartJob env uuid c cmdStr lim s w =
     (case WithCancel c w of (jobCtx, w0) \<Rightarrow>
      case Job_New uuid jobCtx cmdStr lim w0 of (job, w1) \<Rightarrow>
      case nextID s of (i, s1) \<Rightarrow>
      let record = \<lparr>ID = i, Job = job, job_ctx = jobCtx\<rparr>
      in if locked s1 then (Blocks, s1, w1)
         else if store s1 i \<noteq> None then (Returns (Inl (ErrExists i)), s1\<lparr>locked := True\<rparr>, w1)
         else (let s2 = s1\<lparr>store := (store s1)(i \<mapsto> record)\<rparr>
               in case Job_Start env job w1 of
                    (Some e, job', w2) \<Rightarrow> (Returns (Inl (ErrJob e)), s2, w2)
                  | (None, job', w2) \<Rightarrow>
                      (Returns (Inr record), s2\<lparr>waiting := waiting s2 @ [(i, job')]\<rparr>, w2)))"

text \<open>
  The record that \<open>StartJob\<close> builds and puts into the map: the new id, the job as
  \<open>jobs.New\<close> returned it, and the derived context.
\<close>

definition placeholder :: "string \<Rightarrow> nat \<Rightarrow> string list \<Rightarrow> ResourceLimit \<Rightarrow> Service \<Rightarrow> World \<Rightarrow> JobRecord" where
  "placeholder uuid c cmdStr lim s w =
     \<lparr>ID = ider s + 1,
      Job = fst (Job_New uuid (fst (WithCancel c w)) cmdStr lim (snd (WithCancel c w))),
      job_ctx = fst (WithCancel c w)\<rparr>"

definition GetJob :: "Service \<Rightarrow> 32 word \<Rightarrow> (service_error + JobRecord) outcome" where
  "GetJob s jobID =
     (if locked s then Blocks
      else (case store s jobID of
              None \<Rightarrow> Returns (Inl ErrJobNotFound)
            | Some job \<Rightarrow> Returns (Inr job)))"

text \<open>
  \<open>StopJob\<close> returns \<open>(code, status, err)\<close>. After \<open>job.cancel()\<close> the channel
  \<open>job.ctx.Done()\<close> is closed, so the first case of the \<open>select\<close> is ready at once; the
  second is ready when the caller's context is done (\<open>caller_done\<close>), and when both
  are, \<open>pick\<close> says whether Go takes the second.
\<close>

definition StopJob ::
  "bool \<Rightarrow> bool \<Rightarrow> 32 word \<Rightarrow> Service \<Rightarrow> World
     \<Rightarrow> (int \<times> Status \<times> service_error option) outcome \<times> World" where
  "StopJob caller_done pick jobID s w =
     (if locked s then (Blocks, w)
      else (case store s jobID of
              None \<Rightarrow> (Returns (- 1, [], Some ErrJobNotFound), w)
            | Some job \<Rightarrow>
                (let w' = cancel (job_ctx job) w
                 in if caller_done \<and> pick then (Returns (- 1, [], Some ErrCtx), w')
                    else (case Result (Job job) w' of
                            (code, status) \<Rightarrow> (Returns (code, status, None), w')))))"

text \<open>
  The goroutine of \<open>StartJob\<close>: \<open>job.Wait()\<close> returns for the \<open>n\<close>-th waiting job.
  \<open>None\<close> is the panic of \<open>Wait\<close>.
\<close>

definition wait_returns :: "wait_env \<Rightarrow> nat \<Rightarrow> Service \<Rightarrow> World \<Rightarrow> (Service \<times> World) option" where
  "wait_returns env n s w =
     (if n < length (waiting s) then
        (case Job_Wait env (snd (waiting s ! n)) w of
           None \<Rightarrow> None
         | Some (err, j', w') \<Rightarrow>
             Some (s\<lparr>waiting := take n (waiting s) @ drop (Suc n) (waiting s),
                     waited_jobs := waited_jobs s @ [(fst (waiting s ! n), j', err)]\<rparr>, w'))
      else Some (s, w))"

text \<open>
  \<open>StreamJob\<close>: \<open>io.Copy\<close> from a new reader of the job's log, with a buffer of \<open>k\<close>
  bytes (32768 in \<open>io.Copy\<close>), into the writer, which is taken not to fail. The log is
  read as it stands: the call waits when the log is open and the reader is at its end.
  It returns the error and the bytes handed to the writer.
\<close>

definition StreamJob ::
  "bool \<Rightarrow> nat \<Rightarrow> bool \<Rightarrow> 32 word \<Rightarrow> Service \<Rightarrow> World
     \<Rightarrow> (service_error option \<times> byte list) outcome" where
  "StreamJob caller_done k pick jobID s w =
     (case GetJob s jobID of
        Blocks \<Rightarrow> Blocks
      | Returns (Inl e) \<Rightarrow> Returns (Some (ErrGetJob e), [])
      | Returns (Inr job) \<Rightarrow>
          (case read_all (mreaders w ! multireader (Job job)) (GetReader caller_done) k pick [] of
             None \<Rightarrow> Blocks
           | Some (bs, e) \<Rightarrow>
               (if e = EOF then Returns (None, bs) else Returns (Some (ErrStream e), bs))))"

text \<open>A sequence of \<open>StartJob\<close> calls, one after the other, with the outcome of each.\<close>

record start_call =
  sc_env :: start_env
  sc_uuid :: string
  sc_ctx :: nat
  sc_cmd :: "string list"
  sc_limits :: ResourceLimit

fun start_jobs ::
  "start_call list \<Rightarrow> Service \<Rightarrow> World
     \<Rightarrow> (service_error + JobRecord) outcome list \<times> Service \<times> World" where
  "start_jobs [] s w = ([], s, w)"
| "start_jobs (c # cs) s w =
     (case StartJob (sc_env c) (sc_uuid c) (sc_ctx c) (sc_cmd c) (sc_limits c) s w of
        (r, s', w') \<Rightarrow>
          (case start_jobs cs s' w' of (rs, s'', w'') \<Rightarrow> (r # rs, s'', w'')))"

text \<open>The ids that a list of outcomes returned, in order.\<close>

fun started_ids :: "(service_error + JobRecord) outcome list \<Rightarrow> 32 word list" where
  "started_ids [] = []"
| "started_ids (Returns (Inr r) # rs) = ID r # started_ids rs"
| "started_ids (_ # rs) = started_ids rs"

section \<open>Package authorizer and the RPC adapter\<close>

definition ActionStart :: string where "ActionStart = ''start''"
definition ActionGet :: string where "ActionGet = ''get''"
definition ActionStop :: string where "ActionStop = ''stop''"
definition ActionStream :: string where "ActionStream = ''stream''"

record Role =
  Name :: string
  Actions :: "string list"

record User =
  Subject :: string
  Roles :: "Role list"

record Authorizer =
  Users :: "string \<rightharpoonup> User"

definition NewAuthorizer :: Authorizer where
  "NewAuthorizer =
     (let adminRole = \<lparr>Name = ''admin'',
                        Actions = [ActionGet, ActionStart, ActionStop, ActionStream]\<rparr>;
          viewerRole = \<lparr>Name = ''viewer'', Actions = [ActionGet, ActionStream]\<rparr>;
          alice = \<lparr>Subject = ''alice'', Roles = [adminRole]\<rparr>;
          victor = \<lparr>Subject = ''victor'', Roles = [viewerRole]\<rparr>
      in \<lparr>Users = [Subject alice \<mapsto> alice, Subject victor \<mapsto> victor]\<rparr>)"

datatype authz_error = ErrSubjectNotFound string  \<comment> \<open>"subject %s not found"\<close>

definition HasAccess :: "Authorizer \<Rightarrow> string \<Rightarrow> string \<Rightarrow> bool \<times> authz_error option" where
  "HasAccess a subject action =
     (case Users a subject of
        None \<Rightarrow> (False, Some (ErrSubjectNotFound subject))
      | Some user \<Rightarrow>
          (if list_ex (\<lambda>role. list_ex (\<lambda>allowedActions. action = allowedActions) (Actions role))
                (Roles user)
           then (True, None) else (False, None)))"

text \<open>
  The request context as the handlers read it: the values under the key \<open>authn_id\<close>
  of the incoming metadata (\<open>None\<close> without metadata), the context's number, and
  whether it is done.
\<close>

record rpc_ctx =
  md :: "string list option"
  cid :: nat
  is_done :: bool

datatype authn_error = ErrMissingID  \<comment> \<open>"missing authn id"\<close>

definition FromMD :: "rpc_ctx \<Rightarrow> authn_error + string" where
  "FromMD c =
     (case md c of
        None \<Rightarrow> Inl ErrMissingID
      | Some ids \<Rightarrow> if length ids = 1 then Inr (ids ! 0) else Inl ErrMissingID)"

text \<open>The status codes of gRPC (package \<open>codes\<close>), and the messages of the wire protocol.\<close>

datatype code =
    OK | Canceled | Unknown | InvalidArgument | DeadlineExceeded | NotFound | AlreadyExists
  | PermissionDenied | ResourceExhausted | FailedPrecondition | Aborted | OutOfRange
  | Unimplemented | Internal | Unavailable | DataLoss | Unauthenticated

record StartRequest =
  req_cmd :: "string list"
  cpu_weight :: "32 word"
  max_mem_use :: "32 word"
  max_disk_io :: "64 word"

record proto_Job =
  pj_id :: "32 word"
  pj_cmd :: "string list"
  pj_status :: string

record StopResponse =
  exit_code :: "32 word"
  status :: string

text \<open>
  What a handler returns: a gRPC status made by \<open>status.Error\<close>, an error of the
  registry passed on as it is, or a response. A handler can also wait for ever, and it
  panics when it calls \<open>HasAccess\<close> through a nil \<open>authz\<close>.
\<close>

datatype 'a rpc = RpcStatus code string | RpcError service_error | RpcOk 'a | RpcBlocks | RpcPanic

text \<open>
  \<open>Jobs\<close>: the pointer \<open>lib\<close> is the \<open>Service\<close> passed to each handler; \<open>authz\<close> is a
  pointer that \<open>NewJobs\<close> leaves nil.
\<close>

record Jobs =
  authz :: "Authorizer option"

definition NewJobs :: Jobs where
  "NewJobs = \<lparr>authz = None\<rparr>"

text \<open>
  The first lines of every handler: the identity from the metadata, then the
  authorizer. \<open>None\<close> lets the handler go on; otherwise the handler returns the value.
\<close>

definition gate :: "Jobs \<Rightarrow> rpc_ctx \<Rightarrow> string \<Rightarrow> 'a rpc option" where
  "gate j c action =
     (case FromMD c of
        Inl e \<Rightarrow> Some (RpcStatus Unauthenticated ''missing id'')
      | Inr userID \<Rightarrow>
          (case authz j of
             None \<Rightarrow> Some RpcPanic
           | Some a \<Rightarrow>
               (case HasAccess a userID action of
                  (ok, Some e) \<Rightarrow> Some (RpcStatus Unknown [])
                | (False, None) \<Rightarrow> Some (RpcStatus Unauthenticated ''unauthenticated'')
                | (True, None) \<Rightarrow> None)))"

definition Jobs_Get :: "Jobs \<Rightarrow> rpc_ctx \<Rightarrow> 32 word \<Rightarrow> Service \<Rightarrow> proto_Job rpc" where
  "Jobs_Get j c req_id s =
     (case gate j c ActionGet of
        Some r \<Rightarrow> r
      | None \<Rightarrow>
          (case GetJob s req_id of
             Blocks \<Rightarrow> RpcBlocks
           | Returns (Inl e) \<Rightarrow> RpcError e
           | Returns (Inr job) \<Rightarrow>
               RpcOk \<lparr>pj_id = ID job, pj_cmd = [], pj_status = Status (Job job)\<rparr>))"

definition Jobs_Start ::
  "Jobs \<Rightarrow> start_env \<Rightarrow> string \<Rightarrow> rpc_ctx \<Rightarrow> StartRequest \<Rightarrow> Service \<Rightarrow> World
     \<Rightarrow> proto_Job rpc \<times> Service \<times> World" where
  "Jobs_Start j env uuid c req s w =
     (case gate j c ActionStart of
        Some r \<Rightarrow> (r, s, w)
      | None \<Rightarrow>
          (case StartJob env uuid (cid c) (req_cmd req)
                  \<lparr>CpuWeight = 100, MaxMem = 100000000, MaxIO = None\<rparr> s w of
             (Blocks, s', w') \<Rightarrow> (RpcBlocks, s', w')
           | (Returns (Inl e), s', w') \<Rightarrow> (RpcError e, s', w')
           | (Returns (Inr job), s', w') \<Rightarrow>
               (RpcOk \<lparr>pj_id = ID job, pj_cmd = req_cmd req, pj_status = []\<rparr>, s', w')))"

definition Jobs_Stop ::
  "Jobs \<Rightarrow> bool \<Rightarrow> rpc_ctx \<Rightarrow> 32 word \<Rightarrow> Service \<Rightarrow> World \<Rightarrow> StopResponse rpc \<times> World" where
  "Jobs_Stop j pick c req_id s w =
     (case gate j c ActionStop of
        Some r \<Rightarrow> (r, w)
      | None \<Rightarrow>
          (case StopJob (is_done c) pick req_id s w of
             (Blocks, w') \<Rightarrow> (RpcBlocks, w')
           | (Returns (exitCode, jobStatus, Some e), w') \<Rightarrow> (RpcError e, w')
           | (Returns (exitCode, jobStatus, None), w') \<Rightarrow>
               (RpcOk \<lparr>exit_code = word_of_int exitCode, status = jobStatus\<rparr>, w')))"

definition Jobs_Stream ::
  "Jobs \<Rightarrow> nat \<Rightarrow> bool \<Rightarrow> rpc_ctx \<Rightarrow> 32 word \<Rightarrow> Service \<Rightarrow> World \<Rightarrow> byte list rpc" where
  "Jobs_Stream j k pick c req_id s w =
     (case gate j c ActionStream of
        Some r \<Rightarrow> r
      | None \<Rightarrow>
          (case StreamJob (is_done c) k pick req_id s w of
             Blocks \<Rightarrow> RpcBlocks
           | Returns (Some e, bs) \<Rightarrow> RpcError e
           | Returns (None, bs) \<Rightarrow> RpcOk bs))"

section \<open>Environments for running the model\<close>

text \<open>
  \<open>filepath.Join\<close> of two clean, non-empty elements puts a slash between them. In
  \<open>fs_all_ok\<close> every file-system operation succeeds, in \<open>fs_none_ok\<close> none does.
\<close>

definition join_slash :: "string \<Rightarrow> string \<Rightarrow> string" where
  "join_slash a b = a @ ''/'' @ b"

definition fs_all_ok :: fs_env where
  "fs_all_ok = \<lparr>Join = join_slash, succeeds = (\<lambda>n op. True)\<rparr>"

definition fs_none_ok :: fs_env where
  "fs_none_ok = \<lparr>Join = join_slash, succeeds = (\<lambda>n op. False)\<rparr>"

definition env_spawns :: "int \<Rightarrow> start_env" where
  "env_spawns pid = \<lparr>fsenv = fs_all_ok, stdout_pipe_ok = True, stderr_pipe_ok = True,
                     spawn = Some pid\<rparr>"

definition env_no_cgroup :: start_env where
  "env_no_cgroup = \<lparr>fsenv = fs_none_ok, stdout_pipe_ok = True, stderr_pipe_ok = True,
                    spawn = Some 1\<rparr>"

definition env_no_pipe :: start_env where
  "env_no_pipe = \<lparr>fsenv = fs_all_ok, stdout_pipe_ok = False, stderr_pipe_ok = True,
                  spawn = Some 1\<rparr>"

text \<open>The child is reaped with the given wait status and both pumps end without error.\<close>

definition env_reaped :: "cmd_wait \<Rightarrow> wait_env" where
  "env_reaped cw = \<lparr>wfsenv = fs_all_ok, pumps = [None, None], waited = cw\<rparr>"

definition default_limits :: ResourceLimit where
  "default_limits = \<lparr>CpuWeight = 100, MaxMem = 100000000, MaxIO = None\<rparr>"

definition echo_call :: start_call where
  "echo_call = \<lparr>sc_env = env_spawns 4242, sc_uuid = ''u1'', sc_ctx = 0,
                sc_cmd = [''echo'', ''hello''], sc_limits = default_limits\<rparr>"

text \<open>
  A new service, and the service after one successful \<open>StartJob\<close> of \<open>echo hello\<close>;
  the request context of a peer whose identity is the given subject.
\<close>

definition svc0 :: "Service \<times> World" where
  "svc0 = NewService 0 init_World"

definition svc1 :: "Service \<times> World" where
  "svc1 = snd (StartJob (env_spawns 4242) ''u1'' 0 [''echo'', ''hello''] default_limits
                 (fst svc0) (snd svc0))"

definition ctx_of :: "string \<Rightarrow> rpc_ctx" where
  "ctx_of subject = \<lparr>md = Some [subject], cid = 0, is_done = False\<rparr>"

section \<open>The broadcast log: prefix property, late readers, writes after Close\<close>

subsection \<open>Readers see a prefix of the log\<close>

lemma reader_ok_append: "reader_ok m r \<Longrightarrow> reader_ok (write_append m p) r"
  by (simp add: reader_ok_def write_append_def)

lemma reader_ok_close_store: "reader_ok (close_store m) r = reader_ok m r"
  by (simp add: reader_ok_def close_store_def)

lemma reader_ok_close_chan: "reader_ok (close_chan m) r = reader_ok m r"
  by (simp add: reader_ok_def close_chan_def)

lemma reader_ok_cancel: "reader_ok m (r\<lparr>ctx_done := b\<rparr>) = reader_ok m r"
  by (simp add: reader_ok_def)

lemma reader_ok_GetReader: "reader_ok m (GetReader d)"
  by (simp add: reader_ok_def GetReader_def)

lemma reader_ok_Read:
  assumes "reader_ok m r" and "Read m r k pick = Some res"
  shows "reader_ok m (snd res)"
  using assms
  by (auto simp: reader_ok_def Read_def Let_def take_add min_def split: if_splits)

lemma readers_ok_step: "readers_ok c \<Longrightarrow> readers_ok (step c e)"
proof (cases e)
  case (ReadCall i k pick)
  assume a: "readers_ok c"
  show ?thesis
  proof (cases "i < length (readers c)")
    case False
    then show ?thesis using a ReadCall by simp
  next
    case True
    show ?thesis
    proof (cases "Read (log c) (readers c ! i) k pick")
      case None
      then show ?thesis using a ReadCall True by simp
    next
      case (Some res)
      have "reader_ok (log c) (snd res)"
        using a True Some reader_ok_Read unfolding readers_ok_def by (metis nth_mem)
      then show ?thesis using a ReadCall True Some
        by (auto simp: readers_ok_def dest!: set_update_subset_insert [THEN subsetD])
    qed
  qed
next
  case (Cancel i)
  assume a: "readers_ok c"
  then show ?thesis using Cancel
    by (auto simp: readers_ok_def reader_ok_cancel
          dest!: set_update_subset_insert [THEN subsetD])
qed (auto simp: readers_ok_def reader_ok_append reader_ok_close_store reader_ok_close_chan
      reader_ok_GetReader split: option.splits)

lemma readers_ok_foldl: "readers_ok c \<Longrightarrow> readers_ok (foldl step c evs)"
  by (induction evs arbitrary: c) (simp_all add: readers_ok_step)

lemma readers_ok_run: "readers_ok (run evs)"
  unfolding run_def by (rule readers_ok_foldl) (simp add: readers_ok_def init_def)

text \<open>
  Claim C1. After any interleaving of the atomic sections of \<open>Write\<close>, \<open>Close\<close>,
  \<open>GetReader\<close>, \<open>Read\<close> and context cancellations, what a reader has observed is exactly
  the first \<open>pos\<close> bytes of the log, and of any two readers the one that has observed
  less has observed a prefix of what the other has.
\<close>

theorem log_prefix_property:
  "(\<forall>r \<in> set (readers (run evs)). observed r = take (pos r) (data (log (run evs)))) \<and>
   (\<forall>r1 \<in> set (readers (run evs)). \<forall>r2 \<in> set (readers (run evs)).
      length (observed r1) \<le> length (observed r2) \<longrightarrow> prefix (observed r1) (observed r2))"
proof -
  have ok: "\<And>r. r \<in> set (readers (run evs)) \<Longrightarrow> reader_ok (log (run evs)) r"
    using readers_ok_run [of evs] by (simp add: readers_ok_def)
  show ?thesis
  proof (intro conjI ballI impI)
    fix r assume "r \<in> set (readers (run evs))"
    then show "observed r = take (pos r) (data (log (run evs)))"
      using ok by (simp add: reader_ok_def)
  next
    fix r1 r2
    assume r1: "r1 \<in> set (readers (run evs))" and r2: "r2 \<in> set (readers (run evs))"
      and le: "length (observed r1) \<le> length (observed r2)"
    have o1: "observed r1 = take (pos r1) (data (log (run evs)))"
      "pos r1 \<le> length (data (log (run evs)))"
      using ok [OF r1] by (simp_all add: reader_ok_def)
    have o2: "observed r2 = take (pos r2) (data (log (run evs)))"
      "pos r2 \<le> length (data (log (run evs)))"
      using ok [OF r2] by (simp_all add: reader_ok_def)
    have "pos r1 \<le> pos r2" using le o1 o2 by simp
    then show "prefix (observed r1) (observed r2)"
      using o1 o2 by (metis take_is_prefix take_take min.absorb1)
  qed
qed

theorem log_prefix_property_witness:
  "run [NewReader False, WriteBegin [1, 2, 3], WriteAppend, NewReader False,
        ReadCall 0 2 False, CloseBegin, ReadCall 1 5 False, CloseChan] =
     \<lparr>log = \<lparr>data = [1, 2, 3], closeChan = True, closed = 1\<rparr>,
      readers = [\<lparr>pos = 2, ctx_done = False, observed = [1, 2]\<rparr>,
                 \<lparr>pos = 3, ctx_done = False, observed = [1, 2, 3]\<rparr>],
      writing = None, closing = False\<rparr> \<and>
   prefix [1, 2 :: byte] [1, 2, 3]"
proof -
  let ?evs = "[NewReader False, WriteBegin [1, 2, 3], WriteAppend, NewReader False,
               ReadCall 0 2 False, CloseBegin, ReadCall 1 5 False, CloseChan]"
  have rs: "run ?evs =
     \<lparr>log = \<lparr>data = [1, 2, 3], closeChan = True, closed = 1\<rparr>,
      readers = [\<lparr>pos = 2, ctx_done = False, observed = [1, 2]\<rparr>,
                 \<lparr>pos = 3, ctx_done = False, observed = [1, 2, 3]\<rparr>],
      writing = None, closing = False\<rparr>"
    by (simp add: run_def init_def NewMultiReaderBuffer_def GetReader_def closeCalled_def
          write_append_def close_store_def close_chan_def Read_def Let_def)
  show ?thesis
    using log_prefix_property [of ?evs] unfolding rs by simp
qed

subsection \<open>A reader of a closed log reads all of it, then EOF\<close>

lemma take_drop_rest: "take k xs @ drop (length (take k xs)) xs = xs"
  by (metis append_take_drop_id length_take min.commute take_all_iff drop_all nle_le min_def)

lemma Read_closed:
  assumes "closeChan m" "\<not> ctx_done r"
  shows "Read m r k pick =
    (let p = take k (drop (pos r) (data m));
         r' = r\<lparr>pos := pos r + length p, observed := observed r @ p\<rparr>
     in Some ((p, if closeCalled m \<and> pos r + length p = length (data m)
                  then Some EOF else None), r'))"
  using assms by (simp add: Read_def Let_def)

lemma read_all_closed:
  assumes "closeCalled m" "closeChan m" "0 < k"
  shows "\<not> ctx_done r \<Longrightarrow> pos r \<le> length (data m) \<Longrightarrow>
         read_all m r k pick acc = Some (acc @ drop (pos r) (data m), EOF)"
proof (induction "length (data m) - pos r" arbitrary: r acc rule: less_induct)
  case less
  define p where "p = take k (drop (pos r) (data m))"
  define r' where "r' = r\<lparr>pos := pos r + length p, observed := observed r @ p\<rparr>"
  have rd: "Read m r k pick =
      Some ((p, if pos r + length p = length (data m) then Some EOF else None), r')"
    using Read_closed [OF assms(2) less.prems(1)] assms(1) by (simp add: p_def r'_def Let_def)
  have split: "p @ drop (pos r + length p) (data m) = drop (pos r) (data m)"
    unfolding p_def using take_drop_rest [of k "drop (pos r) (data m)"]
    by (simp add: add.commute)
  show ?case
  proof (cases "pos r + length p = length (data m)")
    case True
    then have "drop (pos r + length p) (data m) = []" by simp
    with split have "p = drop (pos r) (data m)" by simp
    then show ?thesis using rd True by (subst read_all.simps) simp
  next
    case False
    have lt: "pos r < length (data m)"
      using False less.prems(2) p_def by (cases "pos r = length (data m)") auto
    then have pl: "0 < length p" using assms(3) by (simp add: p_def)
    have le: "pos r + length p \<le> length (data m)" using lt by (simp add: p_def)
    have pr': "pos r' = pos r + length p" by (simp add: r'_def)
    have "length (data m) - pos r' < length (data m) - pos r"
      using pl le lt unfolding pr' by linarith
    moreover have "\<not> ctx_done r'" using less.prems(1) by (simp add: r'_def)
    moreover have "pos r' \<le> length (data m)" using le unfolding pr' .
    ultimately have "read_all m r' k pick (acc @ p) =
        Some ((acc @ p) @ drop (pos r') (data m), EOF)"
      by (rule less.hyps)
    then show ?thesis using rd False split
      by (subst read_all.simps) (simp add: r'_def)
  qed
qed

text \<open>
  Claim C2. Write \<open>X\<close> to a new log and close it: a reader whose context is never
  cancelled, reading with any non-empty buffer, gets exactly \<open>X\<close> and then \<open>io.EOF\<close>.
  More generally, on any log on which \<open>Close\<close> has returned (flag stored and channel
  closed), a new reader gets the whole of \<open>data\<close> and then \<open>io.EOF\<close>. \<open>GetReader\<close> does
  not look at the log, so a reader made before the \<open>Close\<close> that has not read yet is the
  same value as one made after it.
\<close>

theorem late_reader_reads_all:
  assumes "0 < k"
  shows "read_all (snd (Close (snd (Write NewMultiReaderBuffer X)))) (GetReader False) k pick []
           = Some (X, EOF) \<and>
         (closeCalled m \<and> closeChan m \<longrightarrow>
            read_all m (GetReader False) k pick [] = Some (data m, EOF))"
proof -
  let ?m = "snd (Close (snd (Write NewMultiReaderBuffer X)))"
  have m: "closeCalled ?m" "closeChan ?m" "data ?m = X"
    by (simp_all add: Close_def Write_def closeCalled_def NewMultiReaderBuffer_def
          close_chan_def close_store_def write_append_def)
  have "read_all ?m (GetReader False) k pick [] = Some (X, EOF)"
    using read_all_closed [OF m(1) m(2) assms, of "GetReader False" pick "[]"] m(3)
    by (simp add: GetReader_def)
  moreover have "closeCalled m \<and> closeChan m \<longrightarrow>
      read_all m (GetReader False) k pick [] = Some (data m, EOF)"
    using read_all_closed [of m k "GetReader False" pick "[]"] assms
    by (simp add: GetReader_def)
  ultimately show ?thesis by blast
qed

theorem late_reader_reads_all_witness:
  "(0::nat) < 2 \<and>
   read_all (snd (Close (snd (Write NewMultiReaderBuffer [104, 105, 10]))))
     (GetReader False) 2 True [] = Some ([104, 105, 10], EOF)"
  using late_reader_reads_all [of 2 "[104, 105, 10]" True NewMultiReaderBuffer] by simp

subsection \<open>Write after Close, and Close twice\<close>

lemma closeCalled_Close: "closeCalled (snd (Close m))"
  by (simp add: Close_def closeCalled_def close_chan_def close_store_def)

text \<open>
  Claim C7. \<open>Close\<close> sets the flag that \<open>closeCalled\<close> reads. On a log whose flag is
  set, \<open>Write p\<close> returns \<open>(0, "multireader: close called")\<close> and leaves the log as it
  was, and another \<open>Close\<close> returns \<open>nil\<close> and changes nothing. Among interleaved
  calls the same holds: a \<open>Write\<close> or a \<open>Close\<close> that begins when the flag is set
  leaves the log and every reader as they were, so no reader can see a byte of \<open>p\<close>.
\<close>

theorem write_after_close_rejected:
  "closeCalled (snd (Close m0)) \<and>
   (closeCalled m \<longrightarrow>
      Write m p = ((0, Some ErrCloseCalled), m) \<and> Close m = (None, m)) \<and>
   (closeCalled (log c) \<longrightarrow> step c (WriteBegin p) = c \<and> step c CloseBegin = c)"
  by (simp add: Write_def Close_def closeCalled_def close_chan_def close_store_def)

theorem write_after_close_rejected_witness:
  "closeCalled (snd (Close NewMultiReaderBuffer)) \<and>
   Write (snd (Close NewMultiReaderBuffer)) [1, 2] =
     ((0, Some ErrCloseCalled), snd (Close NewMultiReaderBuffer)) \<and>
   Close (snd (Close NewMultiReaderBuffer)) = (None, snd (Close NewMultiReaderBuffer)) \<and>
   closeCalled (log (run [WriteBegin [7], WriteAppend, CloseBegin, CloseChan])) \<and>
   step (run [WriteBegin [7], WriteAppend, CloseBegin, CloseChan]) (WriteBegin [1, 2])
     = run [WriteBegin [7], WriteAppend, CloseBegin, CloseChan]"
proof -
  let ?c = "run [WriteBegin [7], WriteAppend, CloseBegin, CloseChan]"
  have c: "closeCalled (log ?c)"
    by (simp add: run_def init_def NewMultiReaderBuffer_def closeCalled_def write_append_def
          close_store_def close_chan_def)
  show ?thesis
    using write_after_close_rejected
      [of NewMultiReaderBuffer "snd (Close NewMultiReaderBuffer)" "[1, 2]" ?c] c
    by simp
qed

section \<open>The cgroup manager writes each limit to its knob file\<close>

lemma do_op_log: "do_op env op l = (b, l') \<Longrightarrow> l' = l @ [(op, b)]"
  by (auto simp: do_op_def)

text \<open>\<open>Itoa\<close> is the decimal numeral: reading it back gives the number.\<close>

lemma digit_val_digit: "d < 10 \<Longrightarrow> digit_val (''0123456789'' ! d) = d"
proof -
  assume "d < 10"
  then have "d \<in> {0, 1, 2, 3, 4, 5, 6, 7, 8, 9}" by auto
  then show ?thesis by (auto simp: digit_val_def)
qed

lemma decimal_snoc: "decimal (cs @ [c]) = 10 * decimal cs + digit_val c"
  by (simp add: decimal_def)

lemma decimal_digits: "decimal (digits n) = n"
proof (induction n rule: digits.induct)
  case (1 n)
  show ?case
  proof (cases "n < 10")
    case True
    then show ?thesis by (subst digits.simps) (simp add: decimal_def digit_val_digit)
  next
    case False
    then have "decimal (digits (n div 10)) = n div 10" using 1 by simp
    then show ?thesis using False
      by (subst digits.simps) (simp add: decimal_snoc digit_val_digit)
  qed
qed

lemma digits_nonempty: "digits n \<noteq> []"
  by (subst digits.simps) simp

lemma hd_digits: "hd (digits n) \<noteq> CHR ''-''"
proof (induction n rule: digits.induct)
  case (1 n)
  show ?case
  proof (cases "n < 10")
    case True
    then have "n \<in> {0, 1, 2, 3, 4, 5, 6, 7, 8, 9}" by auto
    then show ?thesis by (subst digits.simps) auto
  next
    case False
    then show ?thesis using 1 digits_nonempty [of "n div 10"]
      by (subst digits.simps) simp
  qed
qed

lemma Atoi_Itoa: "Atoi (Itoa i) = i"
proof (cases "i < 0")
  case True
  then show ?thesis by (simp add: Atoi_def Itoa_def decimal_digits)
next
  case False
  obtain c cs where d: "digits (nat i) = c # cs"
    using digits_nonempty [of "nat i"] by (cases "digits (nat i)") auto
  have "c \<noteq> CHR ''-''" using hd_digits [of "nat i"] d by simp
  then show ?thesis using False d decimal_digits [of "nat i"]
    by (simp add: Atoi_def Itoa_def)
qed

lemma Itoa_99: "Itoa 99 = ''99''"
  by (simp add: Itoa_def digits.simps)

text \<open>
  Claim C9. When \<open>New name mountPoint limits\<close> succeeds, the operations it performed
  are, in this order and all with success: the write of \<open>+cpu +memory +io\<close> to
  \<open>cgroup.subtree_control\<close>, the creation of the directory, then for a non-zero
  \<open>CpuWeight\<close> the write of its decimal numeral to \<open>cpu.weight\<close>, for a non-zero
  \<open>MaxMem\<close> the write of its decimal numeral to \<open>memory.max\<close>, and for a present
  \<open>MaxIO\<close> the write of \<open>maj:min wiops=n\<close> to \<open>io.max\<close>. Nothing else is written: a
  knob that is 0, or an absent I/O limit, causes no write to its file.
\<close>

theorem New_writes_limits:
  assumes "New env name mountPoint lim l0 = (Inr ctrl, l1)"
  shows "Path ctrl = Join env mountPoint name \<and>
         l1 = l0 @ map (\<lambda>op. (op, True))
           ([WriteFile (Join env mountPoint ''cgroup.subtree_control'') ''+cpu +memory +io'',
             MkdirAll (Path ctrl)]
            @ (if CpuWeight lim \<noteq> 0
               then [WriteFile (Join env (Path ctrl) ''cpu.weight'') (Itoa (CpuWeight lim))]
               else [])
            @ (if MaxMem lim \<noteq> 0
               then [WriteFile (Join env (Path ctrl) ''memory.max'') (Itoa (MaxMem lim))]
               else [])
            @ (case MaxIO lim of
                 None \<Rightarrow> []
               | Some io \<Rightarrow>
                   [WriteFile (Join env (Path ctrl) ''io.max'')
                      (Itoa (io_Maj io) @ '':'' @ Itoa (io_Min io) @ '' wiops=''
                       @ Itoa (io_MaxIO io))]))"
  using assms
  unfolding New_def Let_def
  by (auto split: prod.splits bool.splits if_splits option.splits dest!: do_op_log
        simp: io_line_def)

theorem New_writes_limits_witness:
  "New fs_all_ok ''job1'' ''/lib_cgroup''
       \<lparr>CpuWeight = 99, MaxMem = 0, MaxIO = None\<rparr> []
     = (Inr \<lparr>Path = ''/lib_cgroup/job1''\<rparr>,
        [(WriteFile ''/lib_cgroup/cgroup.subtree_control'' ''+cpu +memory +io'', True),
         (MkdirAll ''/lib_cgroup/job1'', True),
         (WriteFile ''/lib_cgroup/job1/cpu.weight'' ''99'', True)]) \<and>
   Path \<lparr>Path = ''/lib_cgroup/job1''\<rparr> = ''/lib_cgroup/job1''"
proof -
  let ?env = "fs_all_ok"
  let ?l = "[(WriteFile ''/lib_cgroup/cgroup.subtree_control'' ''+cpu +memory +io'', True),
             (MkdirAll ''/lib_cgroup/job1'', True),
             (WriteFile ''/lib_cgroup/job1/cpu.weight'' ''99'', True)]"
  have run: "New ?env ''job1'' ''/lib_cgroup'' \<lparr>CpuWeight = 99, MaxMem = 0, MaxIO = None\<rparr> []
               = (Inr \<lparr>Path = ''/lib_cgroup/job1''\<rparr>, ?l)"
    by (simp add: New_def do_op_def Itoa_def digits.simps Let_def fs_all_ok_def join_slash_def)
  show ?thesis
    using New_writes_limits [OF run] run by simp
qed

section \<open>The guard of Job.Start\<close>

lemma cmds_close_one: "cmds (close_one env cl w) = cmds w"
  by (simp add: close_one_def split: closer.splits)

lemma cmds_Job_close: "cmds (Job_close env j w) = cmds w"
proof -
  have "cmds (foldl (\<lambda>w' cl. close_one env cl w') w cls) = cmds w" for cls
    by (induction cls arbitrary: w) (simp_all add: cmds_close_one)
  then show ?thesis by (simp add: Job_close_def)
qed

lemma already_executed_cong:
  "cmd j' = cmd j \<Longrightarrow> cmds w' = cmds w \<Longrightarrow> already_executed j' w' = already_executed j w"
  by (simp add: already_executed_def split: option.splits)

lemma Job_start_never_already:
  "fst (Job_start env j w) \<noteq> Some ErrAlreadyExecuted"
  by (simp add: Job_start_def Let_def split: prod.splits sum.splits option.splits)

lemma Job_start_guard:
  assumes "\<not> already_executed j w" "Job_start env j w = (r, j', w')"
  shows "already_executed j' w' = (r = None)"
  using assms
  by (auto simp: Job_start_def Let_def already_executed_def
      split: prod.splits sum.splits option.splits if_splits)

lemma Job_Start_result:
  "(fst (Job_Start env j w) = Some ErrAlreadyExecuted) = already_executed j w"
proof (cases "already_executed j w")
  case True
  then show ?thesis by (simp add: Job_Start_def)
next
  case False
  obtain r0 j0 w0 where s: "Job_start env j w = (r0, j0, w0)" by (cases "Job_start env j w") auto
  have "r0 \<noteq> Some ErrAlreadyExecuted" using Job_start_never_already [of env j w] s by simp
  then show ?thesis using False s by (cases r0) (simp_all add: Job_Start_def)
qed

lemma Job_Start_guard:
  assumes "Job_Start env j w = (r, j', w')"
  shows "already_executed j' w' = (already_executed j w \<or> r = None)"
proof (cases "already_executed j w")
  case True
  then show ?thesis using assms by (auto simp: Job_Start_def)
next
  case False
  obtain r0 j0 w0 where s: "Job_start env j w = (r0, j0, w0)" by (cases "Job_start env j w") auto
  have g: "already_executed j0 w0 = (r0 = None)" using Job_start_guard [OF False s] .
  show ?thesis
  proof (cases r0)
    case None
    then show ?thesis using assms False s g by (auto simp: Job_Start_def)
  next
    case (Some e)
    then have "r = Some e" "j' = j0" "w' = Job_close (fsenv env) j0 w0"
      using assms False s by (auto simp: Job_Start_def)
    moreover have "already_executed j0 (Job_close (fsenv env) j0 w0) = already_executed j0 w0"
      by (rule already_executed_cong) (simp_all add: cmds_Job_close)
    ultimately show ?thesis using False g Some by simp
  qed
qed

lemma Job_Starts_length: "Job_Starts envs j w = (rs, j', w') \<Longrightarrow> length rs = length envs"
  by (induction envs arbitrary: j w rs j' w') (auto split: prod.splits)

lemma Job_Starts_executed:
  "already_executed j w \<Longrightarrow> Job_Starts envs j w = (rs, j', w') \<Longrightarrow>
   \<forall>r \<in> set rs. r = Some ErrAlreadyExecuted"
proof (induction envs arbitrary: rs)
  case Nil
  then show ?case by simp
next
  case (Cons env envs)
  have s: "Job_Start env j w = (Some ErrAlreadyExecuted, j, w)"
    using Cons.prems(1) by (simp add: Job_Start_def)
  obtain rs0 j0 w0 where t: "Job_Starts envs j w = (rs0, j0, w0)" by (cases "Job_Starts envs j w") auto
  then have "rs = Some ErrAlreadyExecuted # rs0" using Cons.prems(2) s by simp
  moreover have "\<forall>r \<in> set rs0. r = Some ErrAlreadyExecuted"
    using Cons.IH [OF Cons.prems(1)] t Cons.prems(2) s by auto
  ultimately show ?case by simp
qed

lemma Job_Starts_guard:
  "\<not> already_executed j w \<Longrightarrow> Job_Starts envs j w = (rs, j', w') \<Longrightarrow> k < length rs \<Longrightarrow>
   (rs ! k = Some ErrAlreadyExecuted) = (\<exists>i<k. rs ! i = None)"
proof (induction envs arbitrary: j w rs k)
  case Nil
  then show ?case by simp
next
  case (Cons env envs)
  obtain r j1 w1 where s: "Job_Start env j w = (r, j1, w1)" by (cases "Job_Start env j w") auto
  obtain rs0 where t: "Job_Starts envs j1 w1 = (rs0, j', w')" and rs: "rs = r # rs0"
    using Cons.prems(2) s by (auto split: prod.splits)
  have r: "r \<noteq> Some ErrAlreadyExecuted"
    using Job_Start_result [of env j w] Cons.prems(1) s by simp
  have g: "already_executed j1 w1 = (r = None)"
    using Job_Start_guard [OF s] Cons.prems(1) by simp
  show ?case
  proof (cases k)
    case 0
    then show ?thesis using rs r by simp
  next
    case (Suc k')
    then have k': "k' < length rs0" using Cons.prems(3) rs by simp
    show ?thesis
    proof (cases "r = None")
      case True
      then have "rs0 ! k' = Some ErrAlreadyExecuted"
        using Job_Starts_executed [OF _ t] g k' by simp
      then show ?thesis using Suc rs True by auto
    next
      case False
      then have "(rs0 ! k' = Some ErrAlreadyExecuted) = (\<exists>i<k'. rs0 ! i = None)"
        using Cons.IH [OF _ t k'] g by simp
      moreover have "(\<exists>i<Suc k'. (r # rs0) ! i = None) = (\<exists>i<k'. rs0 ! i = None)"
        using False by (auto simp: less_Suc_eq_0_disj)
      ultimately show ?thesis using Suc rs by simp
    qed
  qed
qed

lemma new_not_executed: "Job_New uuid c cmdline lim w0 = (j, w) \<Longrightarrow> \<not> already_executed j w"
  by (auto simp: Job_New_def already_executed_def Let_def)

lemma Job_Starts_executed_end:
  "Job_Starts envs j w = (rs, j', w') \<Longrightarrow>
   already_executed j' w' = (already_executed j w \<or> (\<exists>i<length rs. rs ! i = None))"
proof (induction envs arbitrary: j w rs)
  case Nil
  then show ?case by simp
next
  case (Cons env envs)
  obtain r j1 w1 where s: "Job_Start env j w = (r, j1, w1)" by (cases "Job_Start env j w") auto
  obtain rs0 where t: "Job_Starts envs j1 w1 = (rs0, j', w')" and rs: "rs = r # rs0"
    using Cons.prems s by (auto split: prod.splits)
  have "already_executed j' w' = (already_executed j1 w1 \<or> (\<exists>i<length rs0. rs0 ! i = None))"
    using Cons.IH [OF t] .
  moreover have "already_executed j1 w1 = (already_executed j w \<or> r = None)"
    using Job_Start_guard [OF s] .
  moreover have "(\<exists>i<length rs. rs ! i = None) = (r = None \<or> (\<exists>i<length rs0. rs0 ! i = None))"
    unfolding rs by (auto simp: less_Suc_eq_0_disj)
  ultimately show ?case by blast
qed

lemma Job_start_ok_spawned: "fst (Job_start env j w) = None \<Longrightarrow> spawn env \<noteq> None"
  by (auto simp: Job_start_def Let_def split: prod.splits sum.splits option.splits if_splits)

lemma Job_Start_ok_spawned: "fst (Job_Start env j w) = None \<Longrightarrow> spawn env \<noteq> None"
proof -
  assume a: "fst (Job_Start env j w) = None"
  obtain r0 j0 w0 where s: "Job_start env j w = (r0, j0, w0)" by (cases "Job_start env j w") auto
  have "\<not> already_executed j w" using a by (auto simp: Job_Start_def)
  then have "r0 = None" using a s by (cases r0) (simp_all add: Job_Start_def)
  then show ?thesis using Job_start_ok_spawned [of env j w] s by simp
qed

lemma Job_Starts_ok_spawned:
  "Job_Starts envs j w = (rs, j', w') \<Longrightarrow> k < length envs \<Longrightarrow> rs ! k = None \<Longrightarrow>
   spawn (envs ! k) \<noteq> None"
proof (induction envs arbitrary: j w rs k)
  case Nil
  then show ?case by simp
next
  case (Cons env envs)
  obtain r j1 w1 where s: "Job_Start env j w = (r, j1, w1)" by (cases "Job_Start env j w") auto
  obtain rs0 where t: "Job_Starts envs j1 w1 = (rs0, j', w')" and rs: "rs = r # rs0"
    using Cons.prems(1) s by (auto split: prod.splits)
  show ?case
  proof (cases k)
    case 0
    then show ?thesis using Cons.prems(3) rs s Job_Start_ok_spawned [of env j w] by simp
  next
    case (Suc k')
    then show ?thesis using Cons.IH [OF t, of k'] Cons.prems(2,3) rs by simp
  qed
qed

text \<open>
  Claim C10. Take a job made by \<open>New\<close> and call \<open>Start\<close> on it any number of times,
  under any environments. A call returns "process already executed" exactly when an
  earlier call returned \<open>nil\<close>; a call returns \<open>nil\<close> only if \<open>cmd.Start()\<close> spawned the
  child; and at the end \<open>cmd.Process\<close> is set exactly when some call returned \<open>nil\<close>.
  So after calls that failed before the spawn (cgroup creation, a pipe, the spawn
  itself) the guard lets the next \<open>Start\<close> through.
\<close>

theorem start_guard_trips_after_spawn_only:
  assumes "Job_New uuid c cmdline lim w0 = (j, w)"
    and "Job_Starts envs j w = (rs, j', w')"
    and "k < length envs"
  shows "(rs ! k = Some ErrAlreadyExecuted) = (\<exists>i<k. rs ! i = None) \<and>
         (rs ! k = None \<longrightarrow> spawn (envs ! k) \<noteq> None) \<and>
         already_executed j' w' = (\<exists>i<length rs. rs ! i = None)"
proof -
  have n: "\<not> already_executed j w" using new_not_executed [OF assms(1)] .
  have k: "k < length rs" using Job_Starts_length [OF assms(2)] assms(3) by simp
  show ?thesis
    using Job_Starts_guard [OF n assms(2) k] Job_Starts_ok_spawned [OF assms(2,3)]
      Job_Starts_executed_end [OF assms(2)] n
    by blast
qed

theorem start_guard_trips_after_spawn_only_witness:
  "fst (Job_Starts [env_no_cgroup, env_no_pipe, env_spawns 4242, env_spawns 4243]
          (fst (Job_New ''u1'' 1 [''echo'', ''hello''] default_limits init_World))
          (snd (Job_New ''u1'' 1 [''echo'', ''hello''] default_limits init_World)))
     = [Some (ErrCgroupNew ErrSubtreeControl), Some ErrStdoutPipe, None,
        Some ErrAlreadyExecuted] \<and>
   (3::nat) < 4 \<and>
   (\<exists>i<3::nat. [Some (ErrCgroupNew ErrSubtreeControl), Some ErrStdoutPipe, None,
                 Some ErrAlreadyExecuted] ! i = None)"
proof -
  let ?envs = "[env_no_cgroup, env_no_pipe, env_spawns 4242, env_spawns 4243]"
  let ?N = "Job_New ''u1'' 1 [''echo'', ''hello''] default_limits init_World"
  let ?X = "Job_Starts ?envs (fst ?N) (snd ?N)"
  have rs: "fst ?X = [Some (ErrCgroupNew ErrSubtreeControl), Some ErrStdoutPipe, None,
                      Some ErrAlreadyExecuted]"
    by (simp add: Job_New_def init_World_def Job_Start_def Job_start_def already_executed_def
          New_def do_op_def Let_def Job_close_def close_one_def Close_def closeCalled_def
          close_store_def close_chan_def NewMultiReaderBuffer_def CgroupController_Close_def
          cleanUp_def cgroupMount_def Itoa_def digits.simps StatusRunning_def StatusUnknown_def
          env_no_cgroup_def env_no_pipe_def env_spawns_def fs_all_ok_def fs_none_ok_def
          join_slash_def default_limits_def)
  have n: "?N = (fst ?N, snd ?N)" by simp
  have x: "?X = (fst ?X, fst (snd ?X), snd (snd ?X))" by simp
  have k: "(3::nat) < length ?envs" by simp
  show ?thesis
    using start_guard_trips_after_spawn_only [OF n x k] unfolding rs by simp
qed

section \<open>The registry: what StartJob leaves in the map\<close>

lemma StartJob_unfold:
  "StartJob env uuid c cmdStr lim s w =
     (let record = placeholder uuid c cmdStr lim s w;
          w1 = snd (Job_New uuid (fst (WithCancel c w)) cmdStr lim (snd (WithCancel c w)));
          s1 = s\<lparr>ider := ider s + 1\<rparr>
      in if locked s then (Blocks, s1, w1)
         else if store s (ider s + 1) \<noteq> None
         then (Returns (Inl (ErrExists (ider s + 1))), s1\<lparr>locked := True\<rparr>, w1)
         else (let s2 = s1\<lparr>store := (store s)(ider s + 1 \<mapsto> record)\<rparr>
               in case Job_Start env (Job record) w1 of
                    (Some e, job', w2) \<Rightarrow> (Returns (Inl (ErrJob e)), s2, w2)
                  | (None, job', w2) \<Rightarrow>
                      (Returns (Inr record), s2\<lparr>waiting := waiting s @ [(ider s + 1, job')]\<rparr>, w2)))"
  by (auto simp add: StartJob_def placeholder_def nextID_def Let_def split: prod.splits option.splits)

lemma StartJob_ider:
  assumes "StartJob env uuid c cmdStr lim s w = (r, s', w')"
  shows "ider s' = ider s + 1"
  using assms unfolding StartJob_unfold Let_def
  by (auto split: if_splits prod.splits option.splits)

lemma StartJob_started:
  assumes "StartJob env uuid c cmdStr lim s w = (Returns (Inr rec), s', w')"
  shows "rec = placeholder uuid c cmdStr lim s w \<and> store s (ider s + 1) = None \<and>
         store s' = (store s)(ider s + 1 \<mapsto> rec) \<and> \<not> locked s \<and> \<not> locked s' \<and>
         (\<exists>jb. waiting s' = waiting s @ [(ider s + 1, jb)] \<and>
               Job_Start env (Job rec) (snd (Job_New uuid (fst (WithCancel c w)) cmdStr lim (snd (WithCancel c w)))) = (None, jb, w'))"
  using assms unfolding StartJob_unfold Let_def
  by (auto split: if_splits prod.splits option.splits)

lemma StartJob_failed:
  assumes "StartJob env uuid c cmdStr lim s w = (Returns (Inl (ErrJob e)), s', w')"
  shows "store s (ider s + 1) = None \<and>
         store s' = (store s)(ider s + 1 \<mapsto> placeholder uuid c cmdStr lim s w) \<and>
         \<not> locked s' \<and> waiting s' = waiting s"
  using assms unfolding StartJob_unfold Let_def
  by (auto split: if_splits prod.splits option.splits)

lemma StartJob_store_mono:
  assumes "StartJob env uuid c cmdStr lim s w = (r, s', w')"
  shows "store s' = store s \<or> (store s (ider s + 1) = None \<and> store s' = (store s)(ider s + 1 \<mapsto> placeholder uuid c cmdStr lim s w))"
  using assms unfolding StartJob_unfold Let_def
  by (auto split: if_splits prod.splits option.splits)

lemma placeholder_fields:
  "ID (placeholder uuid c cmdStr lim s w) = ider s + 1"
  "cmd (Job (placeholder uuid c cmdStr lim s w)) = None"
  "limits (Job (placeholder uuid c cmdStr lim s w)) = lim"
  "Status (Job (placeholder uuid c cmdStr lim s w)) = StatusUnknown"
  "command (Job (placeholder uuid c cmdStr lim s w)) = cmdStr"
  by (simp_all add: placeholder_def Job_New_def Let_def)

lemma GetJob_stored: "\<not> locked s \<Longrightarrow> store s i = Some r \<Longrightarrow> GetJob s i = Returns (Inr r)"
  by (simp add: GetJob_def)

text \<open>
  Claim C5, as the code has it. When \<open>job.Start()\<close> fails, \<open>StartJob\<close> returns the
  error and leaves the record it had put into the map under the new id: a \<open>GetJob\<close>
  with that id afterwards returns that record, not "job not found".
\<close>

theorem failed_start_keeps_placeholder:
  assumes "StartJob env uuid c cmdStr lim s w = (Returns (Inl (ErrJob e)), s', w')"
  shows "store s' = (store s)(ider s + 1 \<mapsto> placeholder uuid c cmdStr lim s w) \<and>
         GetJob s' (ider s + 1) = Returns (Inr (placeholder uuid c cmdStr lim s w))"
  using StartJob_failed [OF assms] by (simp add: GetJob_stored)

lemma New_none_ok: "fst (New fs_none_ok name mp lim l) = Inl ErrSubtreeControl"
  by (simp add: New_def do_op_def fs_none_ok_def)

lemma Job_Start_no_cgroup:
  "\<not> already_executed j w \<Longrightarrow> fst (Job_Start env_no_cgroup j w) = Some (ErrCgroupNew ErrSubtreeControl)"
proof -
  assume a: "\<not> already_executed j w"
  obtain l where n: "New fs_none_ok (job_id j) cgroupMount (limits j) (fs w) = (Inl ErrSubtreeControl, l)"
    using New_none_ok [of "job_id j" cgroupMount "limits j" "fs w"]
    by (cases "New fs_none_ok (job_id j) cgroupMount (limits j) (fs w)") auto
  have "fst (Job_start env_no_cgroup j w) = Some (ErrCgroupNew ErrSubtreeControl)"
    using n by (simp add: Job_start_def env_no_cgroup_def)
  then show ?thesis using a
    by (cases "Job_start env_no_cgroup j w") (auto simp: Job_Start_def)
qed

lemma NewService_fields:
  "ider (fst (NewService c w)) = 0" "store (fst (NewService c w)) = Map.empty"
  "\<not> locked (fst (NewService c w))" "waiting (fst (NewService c w)) = []"
  by (simp_all add: NewService_def WithCancel_def Let_def)

lemma placeholder_not_executed:
  "\<not> already_executed (Job (placeholder uuid c cmdStr lim s w)) w'"
  by (simp add: already_executed_def placeholder_fields)

lemma StartJob_no_cgroup:
  assumes "\<not> locked s" "store s (ider s + 1) = None"
  shows "fst (StartJob env_no_cgroup uuid c cmdStr lim s w) = Returns (Inl (ErrJob (ErrCgroupNew ErrSubtreeControl)))"
proof -
  let ?w1 = "snd (Job_New uuid (fst (WithCancel c w)) cmdStr lim (snd (WithCancel c w)))"
  let ?p = "placeholder uuid c cmdStr lim s w"
  have "fst (Job_Start env_no_cgroup (Job ?p) ?w1) = Some (ErrCgroupNew ErrSubtreeControl)"
    by (rule Job_Start_no_cgroup) (rule placeholder_not_executed)
  then show ?thesis using assms unfolding StartJob_unfold Let_def
    by (cases "Job_Start env_no_cgroup (Job ?p) ?w1") auto
qed

text \<open>
  Claim C5 as stated fails: on a new service, a \<open>StartJob\<close> whose cgroup cannot be
  made returns the error, and \<open>GetJob 1\<close> then does not report "job not found".
\<close>

theorem failed_start_placeholder_remains:
  "fst (StartJob env_no_cgroup ''u1'' 0 [''echo'', ''hello''] default_limits
          (fst (NewService 0 init_World)) (snd (NewService 0 init_World)))
     = Returns (Inl (ErrJob (ErrCgroupNew ErrSubtreeControl))) \<and>
   GetJob (fst (snd (StartJob env_no_cgroup ''u1'' 0 [''echo'', ''hello''] default_limits
                       (fst (NewService 0 init_World)) (snd (NewService 0 init_World))))) 1
     \<noteq> Returns (Inl ErrJobNotFound)"
proof -
  let ?s = "fst (NewService 0 init_World)" and ?w = "snd (NewService 0 init_World)"
  let ?X = "StartJob env_no_cgroup ''u1'' 0 [''echo'', ''hello''] default_limits ?s ?w"
  have r: "fst ?X = Returns (Inl (ErrJob (ErrCgroupNew ErrSubtreeControl)))"
    by (rule StartJob_no_cgroup) (simp_all add: NewService_fields)
  then have x: "?X = (Returns (Inl (ErrJob (ErrCgroupNew ErrSubtreeControl))), fst (snd ?X), snd (snd ?X))"
    by (metis prod.collapse)
  have "store (fst (snd ?X)) 1 \<noteq> None" "\<not> locked (fst (snd ?X))"
    using StartJob_failed [OF x] by (simp_all add: NewService_fields)
  then have "GetJob (fst (snd ?X)) 1 \<noteq> Returns (Inl ErrJobNotFound)"
    by (auto simp: GetJob_def)
  then show ?thesis using r by simp
qed

theorem failed_start_keeps_placeholder_witness:
  "fst (StartJob env_no_cgroup ''u1'' 0 [''echo'', ''hello''] default_limits
          (fst (NewService 0 init_World)) (snd (NewService 0 init_World)))
     = Returns (Inl (ErrJob (ErrCgroupNew ErrSubtreeControl))) \<and>
   GetJob (fst (snd (StartJob env_no_cgroup ''u1'' 0 [''echo'', ''hello''] default_limits
                       (fst (NewService 0 init_World)) (snd (NewService 0 init_World))))) 1
     = Returns (Inr (placeholder ''u1'' 0 [''echo'', ''hello''] default_limits
                       (fst (NewService 0 init_World)) (snd (NewService 0 init_World))))"
proof -
  let ?s = "fst (NewService 0 init_World)" and ?w = "snd (NewService 0 init_World)"
  let ?X = "StartJob env_no_cgroup ''u1'' 0 [''echo'', ''hello''] default_limits ?s ?w"
  have r: "fst ?X = Returns (Inl (ErrJob (ErrCgroupNew ErrSubtreeControl)))"
    by (rule StartJob_no_cgroup) (simp_all add: NewService_fields)
  then have x: "?X = (Returns (Inl (ErrJob (ErrCgroupNew ErrSubtreeControl))),
                      fst (snd ?X), snd (snd ?X))"
    by (metis prod.collapse)
  show ?thesis
    using failed_start_keeps_placeholder [OF x] r by (simp add: NewService_fields)
qed

subsection \<open>The ids of started jobs\<close>

lemma sint_succ: "sint (x :: 32 word) < 2147483647 \<Longrightarrow> sint (x + 1) = sint x + 1"
proof -
  assume a: "sint x < 2147483647"
  have "- (2 ^ 31) \<le> sint x" using sint_ge [of x] by simp
  then have "signed_take_bit 31 (sint x + 1) = sint x + 1"
    using a by (intro signed_take_bit_int_eq_self) simp_all
  then show ?thesis by (simp add: sint_word_ariths)
qed

lemma StartJob_id:
  assumes "StartJob env uuid c cmdStr lim s w = (Returns (Inr rec), s', w')"
  shows "ID rec = ider s + 1"
  using StartJob_started [OF assms] by (simp add: placeholder_fields)

lemma start_jobs_increasing:
  "start_jobs calls s w = (rs, s', w') \<Longrightarrow> sint (ider s) + int (length calls) < 2147483648 \<Longrightarrow>
   sorted_wrt (<) (map sint (started_ids rs)) \<and> (\<forall>i \<in> set (started_ids rs). sint (ider s) < sint i)"
proof (induction calls arbitrary: s w rs)
  case Nil
  then show ?case by simp
next
  case (Cons c cs)
  obtain r s1 w1 where st: "StartJob (sc_env c) (sc_uuid c) (sc_ctx c) (sc_cmd c) (sc_limits c) s w = (r, s1, w1)"
    by (metis prod_cases3)
  obtain rs0 where t: "start_jobs cs s1 w1 = (rs0, s', w')" and rs: "rs = r # rs0"
    using Cons.prems(1) st by (auto split: prod.splits)
  have i1: "ider s1 = ider s + 1" using StartJob_ider [OF st] .
  have s1: "sint (ider s1) = sint (ider s) + 1"
    unfolding i1 using Cons.prems(2) by (intro sint_succ) simp
  have ih: "sorted_wrt (<) (map sint (started_ids rs0))" "\<forall>i \<in> set (started_ids rs0). sint (ider s1) < sint i"
    using Cons.IH [OF t] Cons.prems(2) s1 by simp_all
  show ?case
  proof (cases r)
    case Blocks
    then show ?thesis using ih s1 rs by auto
  next
    case (Returns x)
    show ?thesis
    proof (cases x)
      case (Inl e)
      then show ?thesis using ih s1 rs Returns by auto
    next
      case (Inr rec)
      then have "ID rec = ider s1" using StartJob_id st Returns i1 by simp
      then show ?thesis using ih s1 rs Returns Inr by auto
    qed
  qed
qed

lemma StartJob_dom:
  assumes "StartJob env uuid c cmdStr lim s w = (r, s', w')"
  shows "dom (store s) \<subseteq> dom (store s')"
  using StartJob_store_mono [OF assms] by auto

lemma start_jobs_distinct:
  "start_jobs calls s w = (rs, s', w') \<Longrightarrow>
   distinct (started_ids rs) \<and> set (started_ids rs) \<inter> dom (store s) = {} \<and>
   set (started_ids rs) \<subseteq> dom (store s') \<and> dom (store s) \<subseteq> dom (store s')"
proof (induction calls arbitrary: s w rs)
  case Nil
  then show ?case by simp
next
  case (Cons c cs)
  obtain r s1 w1 where st: "StartJob (sc_env c) (sc_uuid c) (sc_ctx c) (sc_cmd c) (sc_limits c) s w = (r, s1, w1)"
    by (metis prod_cases3)
  obtain rs0 where t: "start_jobs cs s1 w1 = (rs0, s', w')" and rs: "rs = r # rs0"
    using Cons.prems(1) st by (auto split: prod.splits)
  have d: "dom (store s) \<subseteq> dom (store s1)" using StartJob_dom [OF st] .
  have ih: "distinct (started_ids rs0)" "set (started_ids rs0) \<inter> dom (store s1) = {}"
    "set (started_ids rs0) \<subseteq> dom (store s')" "dom (store s1) \<subseteq> dom (store s')"
    using Cons.IH [OF t] by simp_all
  have base: "set (started_ids rs0) \<inter> dom (store s) = {}" "dom (store s) \<subseteq> dom (store s')"
    using ih d by blast+
  show ?case
  proof (cases r)
    case Blocks
    then show ?thesis using ih base rs by simp
  next
    case (Returns x)
    show ?thesis
    proof (cases x)
      case (Inl e)
      then show ?thesis using ih base rs Returns by simp
    next
      case (Inr rec)
      have f: "store s (ID rec) = None" "store s1 (ID rec) \<noteq> None"
        using StartJob_started [of "sc_env c" "sc_uuid c" "sc_ctx c" "sc_cmd c" "sc_limits c" s w rec s1 w1]
          st Returns Inr by (simp_all add: placeholder_fields)
      have "ID rec \<notin> set (started_ids rs0)" using f(2) ih(2) by auto
      moreover have "ID rec \<notin> dom (store s)" using f(1) by auto
      moreover have "ID rec \<in> dom (store s')" using f(2) ih(4) by auto
      ultimately show ?thesis using ih base rs Returns Inr by simp
    qed
  qed
qed

text \<open>
  Claim C8, as the code has it. In any sequence of \<open>StartJob\<close> calls on a service, the
  ids that the successful calls return are pairwise distinct; and they increase
  strictly, as signed 32-bit numbers, as long as the counter does not pass
  \<open>2^31 - 1\<close> during the sequence.
\<close>

theorem started_ids_distinct_and_increasing:
  assumes "start_jobs calls s w = (rs, s', w')"
  shows "distinct (started_ids rs) \<and>
         (sint (ider s) + int (length calls) < 2147483648 \<longrightarrow>
            sorted_wrt (<) (map sint (started_ids rs)))"
  using start_jobs_distinct [OF assms] start_jobs_increasing [OF assms] by blast

lemma New_all_ok: "fst (New fs_all_ok name mp lim l) = Inr \<lparr>Path = join_slash mp name\<rparr>"
  by (simp add: New_def do_op_def fs_all_ok_def Let_def split: option.splits)

lemma Job_start_spawns: "fst (Job_start (env_spawns pid) j w) = None"
proof -
  obtain l where n: "New fs_all_ok (job_id j) cgroupMount (limits j) (fs w)
      = (Inr \<lparr>Path = join_slash cgroupMount (job_id j)\<rparr>, l)"
    using New_all_ok [of "job_id j" cgroupMount "limits j" "fs w"]
    by (cases "New fs_all_ok (job_id j) cgroupMount (limits j) (fs w)") auto
  show ?thesis using n by (simp add: Job_start_def env_spawns_def Let_def)
qed

lemma Job_Start_spawns:
  "\<not> already_executed j w \<Longrightarrow> fst (Job_Start (env_spawns pid) j w) = None"
  using Job_start_spawns [of pid j w]
  by (cases "Job_start (env_spawns pid) j w") (auto simp: Job_Start_def)

lemma StartJob_spawns:
  assumes "\<not> locked s" "store s (ider s + 1) = None"
  shows "fst (StartJob (env_spawns pid) uuid c cmdStr lim s w)
           = Returns (Inr (placeholder uuid c cmdStr lim s w))"
proof -
  let ?w1 = "snd (Job_New uuid (fst (WithCancel c w)) cmdStr lim (snd (WithCancel c w)))"
  let ?p = "placeholder uuid c cmdStr lim s w"
  have "fst (Job_Start (env_spawns pid) (Job ?p) ?w1) = None"
    by (rule Job_Start_spawns) (rule placeholder_not_executed)
  then show ?thesis using assms unfolding StartJob_unfold Let_def
    by (cases "Job_Start (env_spawns pid) (Job ?p) ?w1") auto
qed

lemma word32_of_nat_neq_0: "0 < k \<Longrightarrow> k < 4294967296 \<Longrightarrow> (word_of_nat k :: 32 word) \<noteq> 0"
proof -
  assume a: "0 < k" "k < 4294967296"
  have "(word_of_nat k :: 32 word) = word_of_nat 0 \<longleftrightarrow> take_bit 32 k = take_bit 32 (0::nat)"
    using word_of_nat_eq_iff [where 'a=32, of k 0] by simp
  moreover have "take_bit 32 k = k" using a(2) by (simp add: take_bit_nat_eq_self)
  ultimately show ?thesis using a(1) by simp
qed

lemma start_jobs_Cons_fst:
  "StartJob (sc_env c) (sc_uuid c) (sc_ctx c) (sc_cmd c) (sc_limits c) s w = (r, s1, w1) \<Longrightarrow>
   fst (start_jobs (c # cs) s w) = r # fst (start_jobs cs s1 w1)"
  by (simp split: prod.splits)

lemma echo_call_fields:
  "sc_env echo_call = env_spawns 4242" "sc_uuid echo_call = ''u1''" "sc_ctx echo_call = 0"
  "sc_cmd echo_call = [''echo'', ''hello'']" "sc_limits echo_call = default_limits"
  by (simp_all add: echo_call_def)

lemma start_jobs_replicate:
  "\<not> locked s \<Longrightarrow> (\<forall>k. 1 \<le> k \<and> k \<le> n \<longrightarrow> store s (ider s + word_of_nat k) = None) \<Longrightarrow>
   n < 4294967296 \<Longrightarrow>
   started_ids (fst (start_jobs (replicate n echo_call) s w)) = map (\<lambda>k. ider s + word_of_nat k) [1..<Suc n]"
proof (induction n arbitrary: s w)
  case 0
  then show ?case by simp
next
  case (Suc n)
  let ?X = "StartJob (env_spawns 4242) ''u1'' 0 [''echo'', ''hello''] default_limits s w"
  let ?p = "placeholder ''u1'' 0 [''echo'', ''hello''] default_limits s w"
  have free: "store s (ider s + 1) = None" using Suc.prems(2) [rule_format, of 1] by simp
  have r: "fst ?X = Returns (Inr ?p)" using StartJob_spawns [OF Suc.prems(1) free] .
  then have x: "?X = (Returns (Inr ?p), fst (snd ?X), snd (snd ?X))" by (metis prod.collapse)
  let ?s1 = "fst (snd ?X)" and ?w1 = "snd (snd ?X)"
  have s1: "store ?s1 = (store s)(ider s + 1 \<mapsto> ?p)" "\<not> locked ?s1"
    using StartJob_started [OF x] by simp_all
  have i1: "ider ?s1 = ider s + 1" using StartJob_ider [OF x] .
  have free1: "\<forall>k. 1 \<le> k \<and> k \<le> n \<longrightarrow> store ?s1 (ider ?s1 + word_of_nat k) = None"
  proof (intro allI impI)
    fix k assume k: "1 \<le> k \<and> k \<le> n"
    then have "(word_of_nat k :: 32 word) \<noteq> 0"
      using Suc.prems(3) by (intro word32_of_nat_neq_0) simp_all
    then have ne: "ider s + 1 + word_of_nat k \<noteq> ider s + 1" by simp
    have e: "ider s + 1 + word_of_nat k = ider s + word_of_nat (Suc k)"
      by (simp add: ac_simps)
    have "store s (ider s + word_of_nat (Suc k)) = None"
      using Suc.prems(2) [rule_format, of "Suc k"] k by simp
    then have "store s (ider s + 1 + word_of_nat k) = None" unfolding e .
    then have "((store s)(ider s + 1 \<mapsto> ?p)) (ider s + 1 + word_of_nat k) = None"
      using ne by (simp only: fun_upd_apply if_False)
    then show "store ?s1 (ider ?s1 + word_of_nat k) = None"
      unfolding s1 i1 .
  qed
  have ih: "started_ids (fst (start_jobs (replicate n echo_call) ?s1 ?w1))
            = map (\<lambda>k. ider ?s1 + word_of_nat k) [1..<Suc n]"
    using Suc.IH [OF s1(2) free1] Suc.prems(3) by simp
  have x': "StartJob (sc_env echo_call) (sc_uuid echo_call) (sc_ctx echo_call) (sc_cmd echo_call)
              (sc_limits echo_call) s w = (Returns (Inr ?p), ?s1, ?w1)"
    by (simp only: echo_call_fields) (rule x)
  have "started_ids (fst (start_jobs (replicate (Suc n) echo_call) s w))
        = ID ?p # started_ids (fst (start_jobs (replicate n echo_call) ?s1 ?w1))"
    unfolding replicate_Suc start_jobs_Cons_fst [OF x'] by simp
  also have "\<dots> = (ider s + 1) # map (\<lambda>k. ider s + 1 + word_of_nat k) [1..<Suc n]"
    using ih i1 by (simp add: placeholder_fields)
  also have "\<dots> = map (\<lambda>k. ider s + word_of_nat k) (1 # map Suc [1..<Suc n])"
    by (simp add: o_def ac_simps del: upt_Suc)
  also have "1 # map Suc [1..<Suc n] = [1..<Suc (Suc n)]"
    by (simp add: map_Suc_upt upt_conv_Cons del: upt_Suc)
  finally show ?case .
qed

text \<open>
  Claim C8 as stated fails at the wrap-around of the counter: of \<open>2^31\<close> successful
  \<open>StartJob\<close> calls on a new service, the last returns \<open>-2^31\<close>, which is less than the
  \<open>2^31 - 1\<close> that the call before it returned.
\<close>

theorem ids_wrap_around:
  "sint (started_ids (fst (start_jobs (replicate 2147483648 echo_call)
           (fst (NewService 0 init_World)) (snd (NewService 0 init_World)))) ! 2147483647)
   < sint (started_ids (fst (start_jobs (replicate 2147483648 echo_call)
           (fst (NewService 0 init_World)) (snd (NewService 0 init_World)))) ! 2147483646)"
proof -
  let ?s = "fst (NewService 0 init_World)" and ?w = "snd (NewService 0 init_World)"
  have ids: "started_ids (fst (start_jobs (replicate 2147483648 echo_call) ?s ?w))
             = map (\<lambda>k. ider ?s + word_of_nat k) [1..<Suc 2147483648]"
    by (rule start_jobs_replicate) (simp_all add: NewService_fields)
  show ?thesis unfolding ids by (simp add: NewService_fields del: upt_Suc)
qed

theorem started_ids_distinct_and_increasing_witness:
  "started_ids (fst (start_jobs (replicate 3 echo_call)
      (fst (NewService 0 init_World)) (snd (NewService 0 init_World)))) = [1, 2, 3] \<and>
   distinct [1, 2, 3 :: 32 word] \<and>
   sint (ider (fst (NewService 0 init_World))) + int (length (replicate 3 echo_call))
     < 2147483648 \<and>
   sorted_wrt (<) (map sint [1, 2, 3 :: 32 word])"
proof -
  let ?s = "fst (NewService 0 init_World)" and ?w = "snd (NewService 0 init_World)"
  let ?X = "start_jobs (replicate 3 echo_call) ?s ?w"
  have ids: "started_ids (fst ?X) = map (\<lambda>k. ider ?s + word_of_nat k) [1..<Suc 3]"
    by (rule start_jobs_replicate) (simp_all add: NewService_fields)
  have ids': "started_ids (fst ?X) = [1, 2, 3]"
    unfolding ids by (simp add: NewService_fields upt_conv_Cons del: upt_Suc)
  have x: "?X = (fst ?X, fst (snd ?X), snd (snd ?X))" by simp
  show ?thesis
    using started_ids_distinct_and_increasing [OF x] unfolding ids'
    by (simp add: NewService_fields)
qed

subsection \<open>What StopJob returns\<close>

text \<open>
  The record of a job in the registry is the copy made before the job was started:
  its \<open>cmd\<close> is nil, and stays so, since only \<open>StartJob\<close> writes to the map. On such
  a record \<open>StopJob\<close>, when it returns a result, returns \<open>(-1, "unknown", nil)\<close>.
\<close>

lemma StartJob_records_unstarted:
  assumes "StartJob env uuid c cmdStr lim s w = (r, s', w')"
    and "\<forall>i rec. store s i = Some rec \<longrightarrow> cmd (Job rec) = None"
  shows "\<forall>i rec. store s' i = Some rec \<longrightarrow> cmd (Job rec) = None"
  using StartJob_store_mono [OF assms(1)] assms(2)
  by (auto simp: placeholder_fields split: if_splits)

lemma wait_returns_store:
  "wait_returns env n s w = Some (s', w') \<Longrightarrow> store s' = store s \<and> locked s' = locked s"
  by (auto simp: wait_returns_def split: if_splits option.splits)

lemma StopJob_unstarted_record:
  assumes "\<not> locked s" "store s i = Some rec" "cmd (Job rec) = None" "\<not> (caller_done \<and> pick)"
  shows "fst (StopJob caller_done pick i s w) = Returns (- 1, StatusUnknown, None)"
  using assms by (auto simp: StopJob_def Result_def Let_def)

lemmas eval_defs = NewService_def WithCancel_def init_World_def StartJob_def Job_New_def nextID_def
  Job_Start_def Job_start_def already_executed_def New_def do_op_def Let_def Job_close_def
  close_one_def Close_def closeCalled_def close_store_def close_chan_def NewMultiReaderBuffer_def
  CgroupController_Close_def cleanUp_def cgroupMount_def Itoa_def digits.simps
  env_spawns_def fs_all_ok_def join_slash_def default_limits_def StopJob_def cancel_def
  Result_def wait_returns_def Job_Wait_def env_reaped_def status_of_def ExitCode_def
  List.map_filter_def

text \<open>
  Claim C3 on the code. On a new service, job 1 (\<open>sleep 5\<close>) and job 2 (\<open>echo hello\<close>)
  are started. \<open>StopJob 1\<close> returns \<open>(-1, "unknown", nil)\<close> at once. Then the child of
  job 1 is reaped, killed by signal 9, and the child of job 2 is reaped with exit
  code 0: \<open>Result\<close> on the jobs that \<open>Wait\<close> ran on gives \<open>(-1, "stopped")\<close> and
  \<open>(0, "exited")\<close>. \<open>StopJob\<close> still returns \<open>(-1, "unknown", nil)\<close> for both: it reads
  the copy of the job in the record, whose \<open>cmd\<close> is nil.
\<close>

theorem stop_job_returns_preterminal:
  "case NewService 0 init_World of (s0, w0) \<Rightarrow>
   case StartJob (env_spawns 4242) ''u1'' 0 [''sleep'', ''5''] default_limits s0 w0 of (r1, s1, w1) \<Rightarrow>
   case StartJob (env_spawns 4243) ''u2'' 0 [''echo'', ''hello''] default_limits s1 w1 of (r2, s2, w2) \<Rightarrow>
   case StopJob False False 1 s2 w2 of (stop1, w3) \<Rightarrow>
   case wait_returns (env_reaped (WaitExitError (Signaled 9))) 0 s2 w3 of
     None \<Rightarrow> False
   | Some (s4, w4) \<Rightarrow>
   case wait_returns (env_reaped (WaitNil (Exited 0))) 0 s4 w4 of
     None \<Rightarrow> False
   | Some (s5, w5) \<Rightarrow>
       started_ids [r1, r2] = [1, 2] \<and>
       stop1 = Returns (- 1, StatusUnknown, None) \<and>
       map (\<lambda>(i, j, e). (i, Result j w5, e)) (waited_jobs s5)
         = [(1, (- 1, StatusStopped), None), (2, (0, StatusExited), None)] \<and>
       fst (StopJob False False 1 s5 w5) = Returns (- 1, StatusUnknown, None) \<and>
       fst (StopJob False False 2 s5 w5) = Returns (- 1, StatusUnknown, None)"
  by (simp add: eval_defs)

section \<open>The RPC adapter\<close>

subsection \<open>The authorizer\<close>

lemma HasAccess_unknown:
  "Users a subject = None \<Longrightarrow>
   HasAccess a subject action = (False, Some (ErrSubjectNotFound subject))"
  by (simp add: HasAccess_def)

lemma HasAccess_denied:
  "Users a subject = Some u \<Longrightarrow> \<forall>role \<in> set (Roles u). action \<notin> set (Actions role) \<Longrightarrow>
   HasAccess a subject action = (False, None)"
  by (auto simp: HasAccess_def list_ex_iff)

lemma HasAccess_allowed:
  "Users a subject = Some u \<Longrightarrow> role \<in> set (Roles u) \<Longrightarrow> action \<in> set (Actions role) \<Longrightarrow>
   HasAccess a subject action = (True, None)"
  by (auto simp: HasAccess_def list_ex_iff)

subsection \<open>The handlers as NewJobs builds them\<close>

text \<open>
  \<open>NewJobs\<close> is the only function that builds a \<open>Jobs\<close> value, and it leaves \<open>authz\<close>
  nil. A request without an identity is answered with \<open>Unauthenticated\<close>,
  "missing id"; with an identity, every handler calls \<open>HasAccess\<close> through the nil
  pointer and panics, before it touches the registry. So \<open>Start\<close> never returns a job
  and never changes the service, whatever the request holds.
\<close>

lemma gate_no_identity:
  "FromMD c = Inl e \<Longrightarrow> gate j c action = Some (RpcStatus Unauthenticated ''missing id'')"
  by (simp add: gate_def)

lemma gate_NewJobs: "FromMD c = Inr userID \<Longrightarrow> gate NewJobs c action = Some RpcPanic"
  by (simp add: gate_def NewJobs_def)

lemma handlers_NewJobs:
  assumes "FromMD c = Inr userID"
  shows "Jobs_Get NewJobs c i s = RpcPanic"
    and "Jobs_Start NewJobs env uuid c req s w = (RpcPanic, s, w)"
    and "Jobs_Stop NewJobs pick c i s w = (RpcPanic, w)"
    and "Jobs_Stream NewJobs k pick c i s w = RpcPanic"
  by (simp_all add: Jobs_Get_def Jobs_Start_def Jobs_Stop_def Jobs_Stream_def
        gate_NewJobs [OF assms])

lemma Jobs_Start_NewJobs:
  "Jobs_Start NewJobs env uuid c req s w = (RpcPanic, s, w) \<or>
   Jobs_Start NewJobs env uuid c req s w
     = (RpcStatus Unauthenticated ''missing id'', s, w)"
proof (cases "FromMD c")
  case (Inl e)
  then show ?thesis by (simp add: Jobs_Start_def gate_no_identity)
next
  case (Inr userID)
  then show ?thesis by (simp add: handlers_NewJobs)
qed

lemma Jobs_Start_ignores_limit_fields:
  "Jobs_Start j env uuid c (req\<lparr>cpu_weight := cw, max_mem_use := mm, max_disk_io := io\<rparr>) s w
     = Jobs_Start j env uuid c req s w"
  by (auto simp: Jobs_Start_def split: option.splits prod.splits outcome.splits sum.splits)

lemma svc0_empty: "store (fst svc0) = Map.empty" "fs (snd svc0) = []" "\<not> locked (fst svc0)"
  by (simp_all add: svc0_def NewService_def WithCancel_def init_World_def Let_def)

text \<open>
  Claim C4 on the code. The handlers are those of \<open>NewJobs\<close>; the peer's identity is
  \<open>victor\<close>, who has the viewer role in \<open>NewAuthorizer\<close>, or \<open>mallory\<close>, whom
  \<open>NewAuthorizer\<close> does not know. \<open>HasAccess\<close> on \<open>NewAuthorizer\<close> refuses \<open>start\<close> to
  \<open>victor\<close>, allows him \<open>get\<close> and reports \<open>mallory\<close> as not found; job 1 is in the
  registry. But no handler reaches an authorizer: \<open>Start\<close>, \<open>Get\<close>, \<open>Stop\<close> and
  \<open>Stream\<close> all panic, for the viewer and for the unknown subject alike, so none
  returns a status code and the viewer's \<open>Get\<close> does not succeed.
\<close>

theorem rpc_panics_instead_of_status:
  "HasAccess NewAuthorizer ''victor'' ActionStart = (False, None) \<and>
   HasAccess NewAuthorizer ''victor'' ActionGet = (True, None) \<and>
   HasAccess NewAuthorizer ''mallory'' ActionStart
     = (False, Some (ErrSubjectNotFound ''mallory'')) \<and>
   map_option ID (store (fst svc1) 1) = Some 1 \<and> \<not> locked (fst svc1) \<and>
   Jobs_Start NewJobs (env_spawns 4243) ''u2'' (ctx_of ''victor'')
       \<lparr>req_cmd = [''ls''], cpu_weight = 0, max_mem_use = 0, max_disk_io = 0\<rparr>
       (fst svc1) (snd svc1)
     = (RpcPanic, fst svc1, snd svc1) \<and>
   Jobs_Get NewJobs (ctx_of ''victor'') 1 (fst svc1) = RpcPanic \<and>
   Jobs_Stop NewJobs False (ctx_of ''victor'') 1 (fst svc1) (snd svc1) = (RpcPanic, snd svc1) \<and>
   Jobs_Stream NewJobs 32768 False (ctx_of ''victor'') 1 (fst svc1) (snd svc1) = RpcPanic \<and>
   Jobs_Start NewJobs (env_spawns 4243) ''u2'' (ctx_of ''mallory'')
       \<lparr>req_cmd = [''ls''], cpu_weight = 0, max_mem_use = 0, max_disk_io = 0\<rparr>
       (fst svc1) (snd svc1)
     = (RpcPanic, fst svc1, snd svc1)"
proof -
  have h: "HasAccess NewAuthorizer ''victor'' ActionStart = (False, None)"
    "HasAccess NewAuthorizer ''victor'' ActionGet = (True, None)"
    "HasAccess NewAuthorizer ''mallory'' ActionStart
       = (False, Some (ErrSubjectNotFound ''mallory''))"
    by (simp_all add: HasAccess_def NewAuthorizer_def ActionStart_def ActionGet_def
          ActionStream_def ActionStop_def)
  have s1: "map_option ID (store (fst svc1) 1) = Some 1" "\<not> locked (fst svc1)"
    by (simp_all add: eval_defs svc0_def svc1_def)
  have v: "FromMD (ctx_of ''victor'') = Inr ''victor''"
    and m: "FromMD (ctx_of ''mallory'') = Inr ''mallory''"
    by (simp_all add: FromMD_def ctx_of_def)
  show ?thesis
    using h s1 by (simp add: handlers_NewJobs [OF v] handlers_NewJobs [OF m])
qed

text \<open>
  Claim C6 on the code. The handlers are those of \<open>NewJobs\<close>, the service is new and
  the peer's identity is \<open>alice\<close>. A \<open>Start\<close> whose request leaves the limits out (all
  zero) panics: no job is created, the registry stays empty and nothing is written to
  the cgroup file system, so no job gets the limits 100 and 100000000. A \<open>Start\<close> whose
  request asks for \<open>cpu_weight = 50\<close>, \<open>max_mem_use = 1000\<close> and \<open>max_disk_io = 7\<close>
  does the same.
\<close>

theorem start_rpc_creates_no_job:
  "Jobs_Start NewJobs (env_spawns 4242) ''u1'' (ctx_of ''alice'')
       \<lparr>req_cmd = [''echo'', ''hello''], cpu_weight = 0, max_mem_use = 0, max_disk_io = 0\<rparr>
       (fst svc0) (snd svc0)
     = (RpcPanic, fst svc0, snd svc0) \<and>
   Jobs_Start NewJobs (env_spawns 4242) ''u1'' (ctx_of ''alice'')
       \<lparr>req_cmd = [''echo'', ''hello''], cpu_weight = 50, max_mem_use = 1000,
          max_disk_io = 7\<rparr>
       (fst svc0) (snd svc0)
     = (RpcPanic, fst svc0, snd svc0) \<and>
   store (fst svc0) = Map.empty \<and> fs (snd svc0) = []"
proof -
  have a: "FromMD (ctx_of ''alice'') = Inr ''alice''"
    by (simp add: FromMD_def ctx_of_def)
  show ?thesis
    by (simp add: handlers_NewJobs [OF a] svc0_empty)
qed

end
